theory Spec2Isabelle
  imports Main "HOL-Library.Sublist"
begin

section \<open>The tool-calling conversation loop of the analysis agent\<close>

text \<open>
  This theory embeds \<^verbatim>\<open>MCPClient.connect_to_server\<close>, \<^verbatim>\<open>MCPClient.process_query\<close> and
  \<^verbatim>\<open>MCPClient.cleanup\<close> of \<^verbatim>\<open>analysis/client.py\<close> and the request handler
  \<^verbatim>\<open>analysis_agent\<close> of \<^verbatim>\<open>main.py\<close>.

  The client talks to two external parties: the tool registry (an MCP server reached through
  \<^verbatim>\<open>self.session\<close>) and the model gateway (\<^verbatim>\<open>self.anthropic.messages.create\<close>). Both are
  third-party libraries, so they are parameters of the model: a record of functions, each of
  which either returns a value or raises. Every call the client makes to them is written to an
  event history, in program order, so that the number and the order of the calls can be stated.
  Logging and \<^verbatim>\<open>print\<close> do not influence control flow and are left out, and with them the
  constructor of \<^verbatim>\<open>MCPClient\<close>, which only sets up the logger.
\<close>

subsection \<open>Data model\<close>

text \<open>
  The arguments of a tool call (\<^verbatim>\<open>content.input\<close>, a dictionary) and the output of a tool
  (\<^verbatim>\<open>result.content\<close>) are opaque to the client: it only passes them on.
\<close>

type_synonym tool_args = "(string \<times> string) list"
type_synonym tool_output = string

text \<open>
  A content block, classified by its \<^verbatim>\<open>type\<close> field. The client tests for \<^verbatim>\<open>'text'\<close> and
  \<^verbatim>\<open>'tool_use'\<close>; a block of any other type falls through both tests. \<open>ToolResult\<close> is the
  dictionary \<^verbatim>\<open>{"type": "tool_result", "tool_use_id": ..., "content": ...}\<close> the client
  builds itself.
\<close>

datatype content_block =
    is_Text: Text string
  | is_ToolUse: ToolUse string string tool_args
  | ToolResult string tool_output
  | OtherBlock string

datatype role = User | Assistant

datatype msg_content = Str string | Blocks "content_block list"

record message =
  role :: role
  content :: msg_content

text \<open>A tool as listed by the registry, and the dictionary the client sends to the gateway.\<close>

record tool =
  name :: string
  description :: string
  inputSchema :: string

record tool_dict =
  dict_name :: string
  dict_description :: string
  dict_input_schema :: string

text \<open>
  The keyword arguments of \<^verbatim>\<open>messages.create\<close> that vary between calls (\<^verbatim>\<open>model\<close> and
  \<^verbatim>\<open>max_tokens\<close> are the same constants in every call).
\<close>

record create_request =
  req_system :: "string option"
  req_messages :: "message list"
  req_tools :: "tool_dict list option"

text \<open>The value \<^verbatim>\<open>session.call_tool\<close> returns: the output and the registry's error flag.\<close>

record call_tool_result =
  result_content :: tool_output
  isError :: bool

text \<open>
  Exceptions. \<open>Raised\<close> is an exception raised inside an external call; the others are
  raised by the client's own code.
\<close>

datatype error =
    ValueError string
  | IndexError
  | AttributeError
  | Raised string

text \<open>
  Every call to an external party, in program order. \<open>CallTool\<close> also records the transcript
  (\<^verbatim>\<open>messages\<close>) as it is at the moment of the call; \<open>Create\<close> carries it in its request.
\<close>

datatype event =
    Launch string "string list" string
  | OpenSession
  | Initialize
  | ListTools
  | GetPrompt string
  | is_CallTool: CallTool string tool_args "message list"
  | is_Create: Create create_request
  | Aclose

text \<open>
  The external parties. \<open>create\<close>, \<open>call_tool\<close> and \<open>list_tools\<close> are told how many calls
  of the same operation came before, so that a stub can answer its calls in sequence.
\<close>

record services =
  launch :: "string \<Rightarrow> string list \<Rightarrow> string \<Rightarrow> error + unit"
  open_session :: "error + unit"
  initialize :: "error + unit"
  list_tools :: "nat \<Rightarrow> error + tool list"
  get_prompt :: "string \<Rightarrow> error + string list"
  call_tool :: "nat \<Rightarrow> string \<Rightarrow> tool_args \<Rightarrow> error + call_tool_result"
  create :: "nat \<Rightarrow> create_request \<Rightarrow> error + content_block list"
  aclose :: "error + unit"

definition creates :: "event list \<Rightarrow> nat" where
  "creates evs = length (filter is_Create evs)"

definition calls :: "event list \<Rightarrow> nat" where
  "calls evs = length (filter is_CallTool evs)"

definition listings :: "event list \<Rightarrow> nat" where
  "listings evs = length (filter (\<lambda>e. e = ListTools) evs)"

subsection \<open>\<^verbatim>\<open>connect_to_server\<close>\<close>

definition connect_to_server ::
  "services \<Rightarrow> string \<Rightarrow> string \<Rightarrow> event list \<Rightarrow> (error + unit) \<times> event list" where
  "connect_to_server env user_id server_script_path evs =
    (let is_python = suffix ''.py'' server_script_path;
         is_js = suffix ''.js'' server_script_path
     in if \<not> (is_python \<or> is_js)
        then (Inl (ValueError ''Server script must be a .py or .js file''), evs)
        else
         (let command = (if is_python then ''python3'' else ''node'');
              evs1 = evs @ [Launch command [server_script_path] user_id];
              evs2 = evs1 @ [OpenSession];
              evs3 = evs2 @ [Initialize];
              evs4 = evs3 @ [ListTools]
          in (case launch env command [server_script_path] user_id of
                Inl e \<Rightarrow> (Inl e, evs1)
              | Inr _ \<Rightarrow>
                 (case open_session env of
                    Inl e \<Rightarrow> (Inl e, evs2)
                  | Inr _ \<Rightarrow>
                     (case initialize env of
                        Inl e \<Rightarrow> (Inl e, evs3)
                      | Inr _ \<Rightarrow>
                         (case list_tools env (listings evs3) of
                            Inl e \<Rightarrow> (Inl e, evs4)
                          | Inr tools \<Rightarrow> (Inr (), evs4)))))))"

subsection \<open>\<^verbatim>\<open>process_query\<close>\<close>

text \<open>
  The local variables of \<^verbatim>\<open>process_query\<close> that live across loop iterations. An entry of
  \<^verbatim>\<open>final_text\<close> is either a text fragment of the model or the line
  \<^verbatim>\<open>[Calling tool ... with args ...]\<close>, kept here as the pair it is formatted from.
\<close>

datatype trace_entry = Fragment string | Calling string tool_args

record locals =
  messages :: "message list"
  final_text :: "trace_entry list"
  response :: "content_block list"

text \<open>
  The \<^verbatim>\<open>while True\<close> loop together with its inner \<^verbatim>\<open>for content in response.content\<close>.
  \<open>amc\<close> is \<^verbatim>\<open>assistant_message_content\<close> and \<open>blocks\<close> is what the \<^verbatim>\<open>for\<close> has still to
  visit. The \<^verbatim>\<open>for\<close> running out of blocks is its \<^verbatim>\<open>else\<close> branch, which leaves the
  \<^verbatim>\<open>while\<close>. A \<^verbatim>\<open>tool_use\<close> block calls the tool, appends two turns, asks the gateway again and
  breaks out of the \<^verbatim>\<open>for\<close>, so the \<^verbatim>\<open>while\<close> starts over on the new response with an empty
  \<open>amc\<close>. The loop need not end: the result \<open>None\<close> is the run that never leaves it.
\<close>

partial_function (option) conversation_loop ::
  "services \<Rightarrow> tool_dict list \<Rightarrow> locals \<Rightarrow> event list \<Rightarrow> content_block list \<Rightarrow>
   content_block list \<Rightarrow> ((error + locals) \<times> event list) option" where
  "conversation_loop env available_tools L evs amc blocks =
    (case blocks of
       [] \<Rightarrow> Some (Inr L, evs)
     | b # rest \<Rightarrow>
        (case b of
           Text t \<Rightarrow>
             conversation_loop env available_tools
               (L\<lparr>final_text := final_text L @ [Fragment t]\<rparr>) evs (amc @ [b]) rest
         | ToolUse tool_use_id tool_name tool_args \<Rightarrow>
             (case call_tool env (calls evs) tool_name tool_args of
                Inl e \<Rightarrow> Some (Inl e, evs @ [CallTool tool_name tool_args (messages L)])
              | Inr result \<Rightarrow>
                  (let evs1 = evs @ [CallTool tool_name tool_args (messages L)];
                       msgs = messages L @
                         [\<lparr>role = Assistant, content = Blocks (amc @ [b])\<rparr>,
                          \<lparr>role = User,
                           content = Blocks [ToolResult tool_use_id (result_content result)]\<rparr>];
                       req = \<lparr>req_system = None, req_messages = msgs,
                              req_tools = Some available_tools\<rparr>;
                       evs2 = evs1 @ [Create req]
                   in case create env (creates evs1) req of
                        Inl e \<Rightarrow> Some (Inl e, evs2)
                      | Inr resp \<Rightarrow>
                          conversation_loop env available_tools
                            \<lparr>messages = msgs,
                             final_text = final_text L @ [Calling tool_name tool_args],
                             response = resp\<rparr>
                            evs2 [] resp))
         | ToolResult _ _ \<Rightarrow> conversation_loop env available_tools L evs amc rest
         | OtherBlock _ \<Rightarrow> conversation_loop env available_tools L evs amc rest))"

text \<open>\<^verbatim>\<open>response_summary.content[0].text\<close>\<close>

definition first_text :: "content_block list \<Rightarrow> error + string" where
  "first_text cs =
    (case cs of
       [] \<Rightarrow> Inl IndexError
     | Text t # _ \<Rightarrow> Inr t
     | _ # _ \<Rightarrow> Inl AttributeError)"

definition summary_system :: "string \<Rightarrow> string" where
  "summary_system query =
     ''Provide a summary of the analysis conducted for the query: '' @ query @
     '' based on the below messages''"

definition to_dict :: "tool \<Rightarrow> tool_dict" where
  "to_dict t = \<lparr>dict_name = name t, dict_description = description t,
                dict_input_schema = inputSchema t\<rparr>"

text \<open>
  \<^verbatim>\<open>prompt_text\<close> is computed from the prompt and never read again, so only the call that may
  raise is kept.
\<close>

definition process_query ::
  "services \<Rightarrow> string \<Rightarrow> event list \<Rightarrow> ((error + string) \<times> event list) option" where
  "process_query env query evs =
    (let evs1 = evs @ [GetPrompt ''analysis_system_prompt'']
     in case get_prompt env ''analysis_system_prompt'' of
          Inl e \<Rightarrow> Some (Inl e, evs1)
        | Inr system_prompt \<Rightarrow>
           (let msgs = [\<lparr>role = User, content = Str query\<rparr>];
                evs2 = evs1 @ [ListTools]
            in case list_tools env (listings evs1) of
                 Inl e \<Rightarrow> Some (Inl e, evs2)
               | Inr tools \<Rightarrow>
                  (let available_tools = map to_dict tools;
                       req = \<lparr>req_system = None, req_messages = msgs,
                              req_tools = Some available_tools\<rparr>;
                       evs3 = evs2 @ [Create req]
                   in case create env (creates evs2) req of
                        Inl e \<Rightarrow> Some (Inl e, evs3)
                      | Inr resp \<Rightarrow>
                         (case conversation_loop env available_tools
                                 \<lparr>messages = msgs, final_text = [], response = resp\<rparr>
                                 evs3 [] resp of
                            None \<Rightarrow> None
                          | Some (Inl e, evs4) \<Rightarrow> Some (Inl e, evs4)
                          | Some (Inr L, evs4) \<Rightarrow>
                             (let sreq = \<lparr>req_system = Some (summary_system query),
                                          req_messages = messages L, req_tools = None\<rparr>;
                                  evs5 = evs4 @ [Create sreq]
                              in case create env (creates evs4) sreq of
                                   Inl e \<Rightarrow> Some (Inl e, evs5)
                                 | Inr response_summary \<Rightarrow>
                                     Some (first_text response_summary, evs5))))))"

subsection \<open>\<^verbatim>\<open>cleanup\<close> and the request handler\<close>

definition cleanup :: "services \<Rightarrow> event list \<Rightarrow> (error + unit) \<times> event list" where
  "cleanup env evs = (aclose env, evs @ [Aclose])"

record analysis_request =
  user_id :: string
  description :: string
  ticket_id :: string

text \<open>
  \<^verbatim>\<open>try: ... finally: await client.cleanup()\<close>: the cleanup runs whatever the body did, and an
  exception of the cleanup replaces the body's outcome.
\<close>

definition finally_cleanup ::
  "services \<Rightarrow> (error + string) \<times> event list \<Rightarrow> (error + string) \<times> event list" where
  "finally_cleanup env out =
    (case cleanup env (snd out) of
       (Inl e, evs) \<Rightarrow> (Inl e, evs)
     | (Inr _, evs) \<Rightarrow> (fst out, evs))"

definition analysis_agent ::
  "services \<Rightarrow> analysis_request \<Rightarrow> ((error + string) \<times> event list) option" where
  "analysis_agent env request =
    (case connect_to_server env (user_id request) ''analysisagent/server.py'' [] of
       (Inl e, evs) \<Rightarrow> Some (finally_cleanup env (Inl e, evs))
     | (Inr _, evs) \<Rightarrow>
         (case process_query env (description request) evs of
            None \<Rightarrow> None
          | Some out \<Rightarrow> Some (finally_cleanup env out)))"


section \<open>Vocabulary of the properties\<close>

definition has_tool_use :: "content_block list \<Rightarrow> bool" where
  "has_tool_use blocks = list_ex is_ToolUse blocks"

text \<open>What a scan adds to \<^verbatim>\<open>final_text\<close> for the text blocks it passes.\<close>

definition fragments :: "content_block list \<Rightarrow> trace_entry list" where
  "fragments blocks =
     concat (map (\<lambda>b. case b of Text t \<Rightarrow> [Fragment t] | _ \<Rightarrow> []) blocks)"

text \<open>The two turns appended for a tool call, and the request of a gateway call of the loop.\<close>

definition tool_turns ::
  "content_block list \<Rightarrow> string \<Rightarrow> string \<Rightarrow> tool_args \<Rightarrow> tool_output \<Rightarrow> message list" where
  "tool_turns amc i n a out =
     [\<lparr>role = Assistant, content = Blocks (amc @ [ToolUse i n a])\<rparr>,
      \<lparr>role = User, content = Blocks [ToolResult i out]\<rparr>]"

definition loop_request :: "tool_dict list \<Rightarrow> message list \<Rightarrow> create_request" where
  "loop_request tools msgs = \<lparr>req_system = None, req_messages = msgs, req_tools = Some tools\<rparr>"

definition summary_request :: "string \<Rightarrow> message list \<Rightarrow> create_request" where
  "summary_request query msgs =
     \<lparr>req_system = Some (summary_system query), req_messages = msgs, req_tools = None\<rparr>"

text \<open>
  Gateway calls of the loop carry no system instruction; the summary call carries one.
\<close>

definition is_loop_create :: "event \<Rightarrow> bool" where
  "is_loop_create e = (case e of Create req \<Rightarrow> req_system req = None | _ \<Rightarrow> False)"

definition is_summary_create :: "event \<Rightarrow> bool" where
  "is_summary_create e = (case e of Create req \<Rightarrow> req_system req \<noteq> None | _ \<Rightarrow> False)"

definition loop_creates :: "event list \<Rightarrow> nat" where
  "loop_creates evs = length (filter is_loop_create evs)"

definition summary_creates :: "event list \<Rightarrow> nat" where
  "summary_creates evs = length (filter is_summary_create evs)"

text \<open>An event history whose last event is a summary call.\<close>

definition ends_with_summary :: "event list \<Rightarrow> bool" where
  "ends_with_summary evs = (evs \<noteq> [] \<and> is_summary_create (last evs))"

definition calls_of :: "string \<Rightarrow> event list \<Rightarrow> nat" where
  "calls_of n evs =
     length (filter (\<lambda>e. case e of CallTool n' _ _ \<Rightarrow> n' = n | _ \<Rightarrow> False) evs)"

subsection \<open>Tool results and the requests they answer\<close>

fun request_ids :: "content_block list \<Rightarrow> string list" where
  "request_ids [] = []"
| "request_ids (ToolUse i n a # bs) = i # request_ids bs"
| "request_ids (b # bs) = request_ids bs"

fun result_ids :: "content_block list \<Rightarrow> string list" where
  "result_ids [] = []"
| "result_ids (ToolResult i out # bs) = i # result_ids bs"
| "result_ids (b # bs) = result_ids bs"

definition blocks_of :: "message \<Rightarrow> content_block list" where
  "blocks_of m = (case content m of Str _ \<Rightarrow> [] | Blocks bs \<Rightarrow> bs)"

text \<open>
  The identifier \<open>i\<close> of a tool result is answered by the turn before it when that turn is an
  assistant turn holding exactly one tool-use block with the identifier \<open>i\<close>.
\<close>

definition answered_by :: "message option \<Rightarrow> string \<Rightarrow> bool" where
  "answered_by prev i =
     (case prev of
        None \<Rightarrow> False
      | Some p \<Rightarrow> role p = Assistant \<and> count_list (request_ids (blocks_of p)) i = 1)"

fun results_matched_from :: "message option \<Rightarrow> message list \<Rightarrow> bool" where
  "results_matched_from prev [] = True"
| "results_matched_from prev (m # ms) =
     (list_all (answered_by prev) (result_ids (blocks_of m)) \<and> results_matched_from (Some m) ms)"

definition results_matched :: "message list \<Rightarrow> bool" where
  "results_matched msgs = results_matched_from None msgs"

text \<open>
  The transcripts an event history shows: those sent to the gateway and those at hand when a
  tool is called.
\<close>

definition transcript_matched :: "event \<Rightarrow> bool" where
  "transcript_matched e =
     (case e of
        Create req \<Rightarrow> results_matched (req_messages req)
      | CallTool _ _ snap \<Rightarrow> results_matched snap
      | _ \<Rightarrow> True)"

definition transcripts_matched :: "event list \<Rightarrow> bool" where
  "transcripts_matched evs = list_all transcript_matched evs"

subsection \<open>Entering the loop\<close>

text \<open>The transcript and the event history with which \<^verbatim>\<open>process_query\<close> enters its loop.\<close>

definition initial_messages :: "string \<Rightarrow> message list" where
  "initial_messages query = [\<lparr>role = User, content = Str query\<rparr>]"

definition entry_locals :: "string \<Rightarrow> content_block list \<Rightarrow> locals" where
  "entry_locals query resp =
     \<lparr>messages = initial_messages query, final_text = [], response = resp\<rparr>"

definition entry_events :: "event list \<Rightarrow> tool_dict list \<Rightarrow> string \<Rightarrow> event list" where
  "entry_events evs tools query =
     evs @ [GetPrompt ''analysis_system_prompt'', ListTools,
            Create (loop_request tools (initial_messages query))]"

subsection \<open>Order of commits, tool calls and gateway calls\<close>

text \<open>
  The order in which a tool call would follow the commit of its request: when the tool is
  called, the transcript already holds an assistant turn with a \<^verbatim>\<open>tool_use\<close> block for that
  tool and those arguments.
\<close>

definition requested_in :: "message list \<Rightarrow> string \<Rightarrow> tool_args \<Rightarrow> bool" where
  "requested_in snap n a =
     list_ex (\<lambda>m. role m = Assistant \<and>
                list_ex (\<lambda>b. case b of ToolUse _ n' a' \<Rightarrow> n' = n \<and> a' = a | _ \<Rightarrow> False)
                  (blocks_of m)) snap"

definition invoked_after_commit :: "event list \<Rightarrow> bool" where
  "invoked_after_commit evs =
     list_all (\<lambda>e. case e of CallTool n a snap \<Rightarrow> requested_in snap n a | _ \<Rightarrow> True) evs"

text \<open>
  The order the loop keeps: \<open>msgs\<close> is the transcript \<open>snap\<close> seen by the tool call followed by
  exactly two more turns, the assistant turn that ends with the \<^verbatim>\<open>tool_use\<close> block for \<open>n\<close> and
  \<open>a\<close>, and a user turn whose only block is the \<^verbatim>\<open>tool_result\<close> with the same identifier.
\<close>

definition commits :: "message list \<Rightarrow> string \<Rightarrow> tool_args \<Rightarrow> message list \<Rightarrow> bool" where
  "commits snap n a msgs =
     (take (length snap) msgs = snap \<and>
      (case drop (length snap) msgs of
         [p, m] \<Rightarrow>
           role p = Assistant \<and> role m = User \<and>
           (case rev (blocks_of p) of
              ToolUse i n' a' # _ \<Rightarrow>
                n' = n \<and> a' = a \<and>
                (case blocks_of m of [ToolResult j _] \<Rightarrow> j = i | _ \<Rightarrow> False)
            | _ \<Rightarrow> False)
       | _ \<Rightarrow> False))"

text \<open>
  An event history is sequenced when every tool call that is followed by anything is followed
  by a gateway call whose transcript commits the call.
\<close>

definition next_commits :: "event \<Rightarrow> event list \<Rightarrow> bool" where
  "next_commits e evs =
     (case e of
        CallTool n a snap \<Rightarrow>
          (case evs of
             [] \<Rightarrow> True
           | Create req # _ \<Rightarrow> commits snap n a (req_messages req)
           | _ # _ \<Rightarrow> False)
      | _ \<Rightarrow> True)"

fun sequenced :: "event list \<Rightarrow> bool" where
  "sequenced [] = True"
| "sequenced (e # evs) = (next_commits e evs \<and> sequenced evs)"

definition pending_call :: "event list \<Rightarrow> bool" where
  "pending_call evs = (case rev evs of CallTool _ _ _ # _ \<Rightarrow> True | _ \<Rightarrow> False)"

subsection \<open>Stubs\<close>

text \<open>
  A registry that lists the single tool \<^verbatim>\<open>read_file\<close> and answers the \<open>k\<close>-th tool call with
  \<open>tool_out k\<close>, and a gateway that answers its \<open>k\<close>-th call with \<open>gw k\<close>.
\<close>

definition stub ::
  "(nat \<Rightarrow> error + call_tool_result) \<Rightarrow> (nat \<Rightarrow> error + content_block list) \<Rightarrow> services" where
  "stub tool_out gw =
    \<lparr>launch = (\<lambda>_ _ _. Inr ()), open_session = Inr (), initialize = Inr (),
     list_tools = (\<lambda>_. Inr [\<lparr>name = ''read_file'',
                               description = ''Read a file from the specified path.'',
                               inputSchema = ''file_path''\<rparr>]),
     get_prompt = (\<lambda>_. Inr [''You are a seasoned Salesforce expert'']),
     call_tool = (\<lambda>k _ _. tool_out k),
     create = (\<lambda>k _. gw k),
     aclose = Inr ()\<rparr>"

text \<open>
  The scenario of the specification: the gateway first asks for
  \<^verbatim>\<open>read_file({file_path: "/a.txt"})\<close>, then says \<^verbatim>\<open>done\<close>; the tool returns \<^verbatim>\<open>hello\<close>. The
  identifier of the tool call and the response to the summary call are left open.
\<close>

definition hello :: call_tool_result where
  "hello = \<lparr>result_content = ''hello'', isError = False\<rparr>"

definition scenario_gateway ::
  "string \<Rightarrow> content_block list \<Rightarrow> nat \<Rightarrow> error + content_block list" where
  "scenario_gateway i summary k =
     (if k = 0 then Inr [ToolUse i ''read_file'' [(''file_path'', ''/a.txt'')]]
      else if k = 1 then Inr [Text ''done'']
      else Inr summary)"

definition scenario :: "string \<Rightarrow> content_block list \<Rightarrow> services" where
  "scenario i summary = stub (\<lambda>_. Inr hello) (scenario_gateway i summary)"

text \<open>The event history of the scenario, for the query \<open>q\<close> and the call identifier \<open>i\<close>.\<close>

definition scenario_tools :: "tool_dict list" where
  "scenario_tools =
     [\<lparr>dict_name = ''read_file'', dict_description = ''Read a file from the specified path.'',
       dict_input_schema = ''file_path''\<rparr>]"

definition scenario_transcript :: "string \<Rightarrow> string \<Rightarrow> message list" where
  "scenario_transcript i q =
     initial_messages q @ tool_turns [] i ''read_file'' [(''file_path'', ''/a.txt'')] ''hello''"

definition scenario_loop_trace :: "string \<Rightarrow> string \<Rightarrow> event list" where
  "scenario_loop_trace i q =
     [GetPrompt ''analysis_system_prompt'', ListTools,
      Create (loop_request scenario_tools (initial_messages q)),
      CallTool ''read_file'' [(''file_path'', ''/a.txt'')] (initial_messages q),
      Create (loop_request scenario_tools (scenario_transcript i q))]"

definition scenario_trace :: "string \<Rightarrow> string \<Rightarrow> event list" where
  "scenario_trace i q =
     scenario_loop_trace i q @ [Create (summary_request q (scenario_transcript i q))]"

text \<open>What a successful \<^verbatim>\<open>connect_to_server\<close> of the request handler does.\<close>

definition connect_trace :: "string \<Rightarrow> event list" where
  "connect_trace uid =
     [Launch ''python3'' [''analysisagent/server.py''] uid, OpenSession, Initialize, ListTools]"

text \<open>
  Variants of the scenario: a registry whose \<^verbatim>\<open>call_tool\<close> raises, a registry that reports the
  failure of the tool as a result, and a gateway that asks for a tool in every response.
\<close>

definition tool_stub_fails :: services where
  "tool_stub_fails =
     stub (\<lambda>_. Inl (Raised ''tool call timed out'')) (scenario_gateway ''t1'' [Text ''read''])"

definition tool_stub_error :: services where
  "tool_stub_error =
     stub (\<lambda>_. Inr \<lparr>result_content = ''Unable to read file.'', isError = True\<rparr>)
          (scenario_gateway ''t1'' [Text ''read''])"

definition always_tool_use :: services where
  "always_tool_use =
     stub (\<lambda>_. Inr hello) (\<lambda>_. Inr [ToolUse ''t1'' ''read_file'' [(''file_path'', ''/a.txt'')]])"

section \<open>Properties\<close>

subsection \<open>One step of the loop\<close>

lemma loop_Nil: "conversation_loop env tools L evs amc [] = Some (Inr L, evs)"
  by (subst conversation_loop.simps) simp

lemma loop_Text:
  "conversation_loop env tools L evs amc (Text t # rest) =
   conversation_loop env tools (L\<lparr>final_text := final_text L @ [Fragment t]\<rparr>) evs
     (amc @ [Text t]) rest"
  by (subst conversation_loop.simps) simp

lemma loop_ToolResult:
  "conversation_loop env tools L evs amc (ToolResult i c # rest) =
   conversation_loop env tools L evs amc rest"
  by (subst conversation_loop.simps) simp

lemma loop_OtherBlock:
  "conversation_loop env tools L evs amc (OtherBlock ty # rest) =
   conversation_loop env tools L evs amc rest"
  by (subst conversation_loop.simps) simp

lemma loop_ToolUse_raises:
  "call_tool env (calls evs) n a = Inl e \<Longrightarrow>
   conversation_loop env tools L evs amc (ToolUse i n a # rest) =
   Some (Inl e, evs @ [CallTool n a (messages L)])"
  by (subst conversation_loop.simps) simp

lemma loop_ToolUse_returns:
  "call_tool env (calls evs) n a = Inr r \<Longrightarrow>
   conversation_loop env tools L evs amc (ToolUse i n a # rest) =
   (let msgs = messages L @ tool_turns amc i n a (result_content r);
        req = loop_request tools msgs;
        evs2 = evs @ [CallTool n a (messages L), Create req]
    in case create env (creates evs) req of
         Inl e \<Rightarrow> Some (Inl e, evs2)
       | Inr resp \<Rightarrow>
           conversation_loop env tools
             \<lparr>messages = msgs, final_text = final_text L @ [Calling n a], response = resp\<rparr>
             evs2 [] resp)"
  by (subst conversation_loop.simps)
    (simp add: Let_def creates_def tool_turns_def loop_request_def split: sum.split)

text \<open>Blocks before the first \<^verbatim>\<open>tool_use\<close> only feed \<^verbatim>\<open>final_text\<close> and the pending turn.\<close>

lemma loop_scan:
  "\<not> has_tool_use pre \<Longrightarrow>
   conversation_loop env tools L evs amc (pre @ rest) =
   conversation_loop env tools (L\<lparr>final_text := final_text L @ fragments pre\<rparr>) evs
     (amc @ filter is_Text pre) rest"
proof (induction pre arbitrary: L amc)
  case Nil
  then show ?case by (simp add: fragments_def)
next
  case (Cons b pre)
  then have pre: "\<not> has_tool_use pre" and b: "\<not> is_ToolUse b"
    by (simp_all add: has_tool_use_def)
  show ?case
  proof (cases b)
    case (Text t)
    then show ?thesis
      using Cons.IH [OF pre, of "L\<lparr>final_text := final_text L @ [Fragment t]\<rparr>" "amc @ [Text t]"]
      by (simp add: loop_Text fragments_def)
  next
    case (ToolUse i n a)
    with b show ?thesis by simp
  next
    case (ToolResult i c)
    then show ?thesis
      using Cons.IH [OF pre, of L amc] by (simp add: loop_ToolResult fragments_def)
  next
    case (OtherBlock ty)
    then show ?thesis
      using Cons.IH [OF pre, of L amc] by (simp add: loop_OtherBlock fragments_def)
  qed
qed

lemma loop_no_tool_use:
  "\<not> has_tool_use blocks \<Longrightarrow>
   conversation_loop env tools L evs amc blocks =
   Some (Inr (L\<lparr>final_text := final_text L @ fragments blocks\<rparr>), evs)"
  using loop_scan [of blocks env tools L evs amc "[]"] by (simp add: loop_Nil)

lemma first_tool_use:
  assumes "has_tool_use blocks"
  shows "\<exists>pre i n a post. blocks = pre @ ToolUse i n a # post \<and> \<not> has_tool_use pre"
proof -
  from assms have "\<exists>b\<in>set blocks. is_ToolUse b"
    by (simp add: has_tool_use_def list_ex_iff)
  from split_list_first_prop [OF this]
  obtain pre b post where split: "blocks = pre @ b # post" "is_ToolUse b"
    "\<forall>x\<in>set pre. \<not> is_ToolUse x"
    by blast
  from split(2) obtain i n a where "b = ToolUse i n a" by (cases b) auto
  with split have "blocks = pre @ ToolUse i n a # post" "\<not> has_tool_use pre"
    by (simp_all add: has_tool_use_def list_ex_iff)
  then show ?thesis by blast
qed

subsection \<open>Rejecting a launch target\<close>

text \<open>
  Claim C8. A server script path that ends with neither \<^verbatim>\<open>.py\<close> nor \<^verbatim>\<open>.js\<close> makes
  \<^verbatim>\<open>connect_to_server\<close> raise \<^verbatim>\<open>ValueError\<close> (the validation failure) with the event history
  unchanged: the registry process is not launched, no session is opened and no handshake is
  sent.
\<close>

theorem connect_to_server_rejects:
  "\<not> suffix ''.py'' path \<Longrightarrow> \<not> suffix ''.js'' path \<Longrightarrow>
   connect_to_server env uid path evs =
     (Inl (ValueError ''Server script must be a .py or .js file''), evs)"
  by (simp add: connect_to_server_def)

theorem connect_to_server_rejects_witness:
  "\<not> suffix ''.py'' ''server.rb'' \<and> \<not> suffix ''.js'' ''server.rb'' \<and>
   connect_to_server (scenario ''t1'' []) ''u1'' ''server.rb'' [] =
     (Inl (ValueError ''Server script must be a .py or .js file''), [])"
proof -
  have py: "\<not> suffix ''.py'' ''server.rb''" by (simp add: suffix_to_prefix)
  have js: "\<not> suffix ''.js'' ''server.rb''" by (simp add: suffix_to_prefix)
  from py js connect_to_server_rejects [OF py js, of "scenario ''t1'' []" "''u1''" "[]"]
  show ?thesis by simp
qed

subsection \<open>An invariant rule for the loop\<close>

text \<open>
  Whatever holds when the loop is entered and is kept by a text block and by a completed tool
  call holds at every way out of the loop: the normal exit, a raising tool call and a raising
  gateway call. The loop may also never return; the rule speaks of the runs that do.
\<close>

lemma loop_rule:
  assumes run: "conversation_loop env tools L evs amc blocks = Some out"
    and init: "I L evs amc"
    and on_text: "\<And>L evs amc t. I L evs amc \<Longrightarrow>
        I (L\<lparr>final_text := final_text L @ [Fragment t]\<rparr>) evs (amc @ [Text t])"
    and on_tool: "\<And>L evs amc i n a r resp. I L evs amc \<Longrightarrow>
        call_tool env (calls evs) n a = Inr r \<Longrightarrow>
        create env (creates evs)
          (loop_request tools (messages L @ tool_turns amc i n a (result_content r))) = Inr resp \<Longrightarrow>
        I \<lparr>messages = messages L @ tool_turns amc i n a (result_content r),
           final_text = final_text L @ [Calling n a], response = resp\<rparr>
          (evs @ [CallTool n a (messages L),
                  Create (loop_request tools (messages L @ tool_turns amc i n a (result_content r)))])
          []"
    and on_exit: "\<And>L evs amc. I L evs amc \<Longrightarrow> Q (Inr L, evs)"
    and tool_raises: "\<And>L evs amc n a e. I L evs amc \<Longrightarrow>
        call_tool env (calls evs) n a = Inl e \<Longrightarrow>
        Q (Inl e, evs @ [CallTool n a (messages L)])"
    and create_raises: "\<And>L evs amc i n a r e. I L evs amc \<Longrightarrow>
        call_tool env (calls evs) n a = Inr r \<Longrightarrow>
        create env (creates evs)
          (loop_request tools (messages L @ tool_turns amc i n a (result_content r))) = Inl e \<Longrightarrow>
        Q (Inl e, evs @ [CallTool n a (messages L),
                  Create (loop_request tools (messages L @ tool_turns amc i n a (result_content r)))])"
  shows "Q out"
proof -
  have "env = env \<and> tools = tools \<longrightarrow> I L evs amc \<longrightarrow> Q out"
  proof (rule conversation_loop.raw_induct
      [where P = "\<lambda>env' tools' L evs amc blocks out.
         env' = env \<and> tools' = tools \<longrightarrow> I L evs amc \<longrightarrow> Q out", OF _ run], goal_cases)
    case (1 loop env' tools' L evs amc blocks out)
    show ?case
    proof (intro impI)
      assume eq: "env' = env \<and> tools' = tools" and inv: "I L evs amc"
      note IH = 1(1) and body = 1(2) [unfolded conjunct1 [OF eq] conjunct2 [OF eq]]
      show "Q out"
      proof (cases blocks)
        case Nil
        with body on_exit [OF inv] show ?thesis by simp
      next
        case (Cons b rest)
        show ?thesis
        proof (cases b)
          case (Text t)
          with body Cons IH on_text [OF inv, of t] show ?thesis by auto
        next
          case (ToolUse i n a)
          show ?thesis
          proof (cases "call_tool env (calls evs) n a")
            case (Inl e)
            with body Cons ToolUse tool_raises [OF inv Inl] show ?thesis by simp
          next
            case (Inr r)
            let ?req = "loop_request tools (messages L @ tool_turns amc i n a (result_content r))"
            show ?thesis
            proof (cases "create env (creates evs) ?req")
              case (Inl e)
              with body Cons ToolUse Inr create_raises [OF inv Inr, of i e] show ?thesis
                by (simp add: Let_def creates_def tool_turns_def loop_request_def)
            next
              case (Inr resp)
              with body Cons ToolUse \<open>call_tool env (calls evs) n a = Inr r\<close>
                IH on_tool [OF inv \<open>call_tool env (calls evs) n a = Inr r\<close>, of i resp]
              show ?thesis
                by (simp add: Let_def creates_def tool_turns_def loop_request_def)
            qed
          qed
        next
          case (ToolResult i c)
          with body Cons IH inv show ?thesis by auto
        next
          case (OtherBlock ty)
          with body Cons IH inv show ?thesis by auto
        qed
      qed
    qed
  qed
  with init show ?thesis by simp
qed

subsection \<open>Bookkeeping on event histories\<close>

lemma creates_simps [simp]:
  "creates [] = 0"
  "creates (e # evs) = (if is_Create e then 1 else 0) + creates evs"
  "creates (evs @ evs') = creates evs + creates evs'"
  by (simp_all add: creates_def)

lemma listings_simps [simp]:
  "listings [] = 0"
  "listings (e # evs) = (if e = ListTools then 1 else 0) + listings evs"
  "listings (evs @ evs') = listings evs + listings evs'"
  by (simp_all add: listings_def)

lemma calls_simps [simp]:
  "calls [] = 0"
  "calls (e # evs) = (if is_CallTool e then 1 else 0) + calls evs"
  "calls (evs @ evs') = calls evs + calls evs'"
  by (simp_all add: calls_def)

lemma is_summary_create_simps [simp]:
  "is_summary_create (Create req) = (req_system req \<noteq> None)"
  "\<not> is_summary_create (Launch c as u)"
  "\<not> is_summary_create OpenSession"
  "\<not> is_summary_create Initialize"
  "\<not> is_summary_create ListTools"
  "\<not> is_summary_create (GetPrompt p)"
  "\<not> is_summary_create (CallTool n a snap)"
  "\<not> is_summary_create Aclose"
  by (simp_all add: is_summary_create_def)

lemma is_loop_create_simps [simp]:
  "is_loop_create (Create req) = (req_system req = None)"
  "\<not> is_loop_create (Launch c as u)"
  "\<not> is_loop_create OpenSession"
  "\<not> is_loop_create Initialize"
  "\<not> is_loop_create ListTools"
  "\<not> is_loop_create (GetPrompt p)"
  "\<not> is_loop_create (CallTool n a snap)"
  "\<not> is_loop_create Aclose"
  by (simp_all add: is_loop_create_def)

lemma summary_creates_simps [simp]:
  "summary_creates [] = 0"
  "summary_creates (e # evs) = (if is_summary_create e then 1 else 0) + summary_creates evs"
  "summary_creates (evs @ evs') = summary_creates evs + summary_creates evs'"
  by (simp_all add: summary_creates_def)

lemma loop_creates_simps [simp]:
  "loop_creates [] = 0"
  "loop_creates (e # evs) = (if is_loop_create e then 1 else 0) + loop_creates evs"
  "loop_creates (evs @ evs') = loop_creates evs + loop_creates evs'"
  by (simp_all add: loop_creates_def)

lemma ends_with_summary_simps [simp]:
  "\<not> ends_with_summary []"
  "ends_with_summary [e] = is_summary_create e"
  "ends_with_summary (e # e' # es) = ends_with_summary (e' # es)"
  "ends_with_summary (evs @ e # es) = ends_with_summary (e # es)"
  by (simp_all add: ends_with_summary_def)

subsection \<open>The ways through \<^verbatim>\<open>process_query\<close>\<close>

lemma process_query_cases:
  assumes run: "process_query env q evs = Some (out, evs')"
  obtains
    (prompt_raises) e where
      "get_prompt env ''analysis_system_prompt'' = Inl e"
      "out = Inl e" "evs' = evs @ [GetPrompt ''analysis_system_prompt'']"
  | (listing_raises) e where
      "list_tools env (listings evs) = Inl e"
      "out = Inl e" "evs' = evs @ [GetPrompt ''analysis_system_prompt'', ListTools]"
  | (first_create_raises) ts e where
      "create env (creates evs) (loop_request (map to_dict ts) (initial_messages q)) = Inl e"
      "out = Inl e" "evs' = entry_events evs (map to_dict ts) q"
  | (loop_raises) ts resp e where
      "conversation_loop env (map to_dict ts) (entry_locals q resp)
         (entry_events evs (map to_dict ts) q) [] resp = Some (Inl e, evs')"
      "out = Inl e"
  | (summary) ts resp L evs4 where
      "conversation_loop env (map to_dict ts) (entry_locals q resp)
         (entry_events evs (map to_dict ts) q) [] resp = Some (Inr L, evs4)"
      "evs' = evs4 @ [Create (summary_request q (messages L))]"
      "out = (case create env (creates evs4) (summary_request q (messages L)) of
                Inl e \<Rightarrow> Inl e | Inr rs \<Rightarrow> first_text rs)"
proof (cases "get_prompt env ''analysis_system_prompt''")
  case (Inl e)
  with run prompt_raises show ?thesis by (simp add: process_query_def)
next
  case p: (Inr system_prompt)
  show ?thesis
  proof (cases "list_tools env (listings evs)")
    case (Inl e)
    with run p listing_raises show ?thesis by (simp add: process_query_def)
  next
    case ts: (Inr ts)
    let ?tools = "map to_dict ts"
    show ?thesis
    proof (cases "create env (creates evs) (loop_request ?tools (initial_messages q))")
      case (Inl e)
      with run p ts first_create_raises [of ts e] show ?thesis
        by (simp add: process_query_def loop_request_def initial_messages_def entry_events_def)
    next
      case resp: (Inr resp)
      let ?loop = "conversation_loop env ?tools (entry_locals q resp)
         (entry_events evs ?tools q) [] resp"
      have unfolded: "process_query env q evs =
        (case ?loop of
           None \<Rightarrow> None
         | Some (Inl e, evs4) \<Rightarrow> Some (Inl e, evs4)
         | Some (Inr L, evs4) \<Rightarrow>
             Some (case create env (creates evs4) (summary_request q (messages L)) of
                     Inl e \<Rightarrow> Inl e | Inr rs \<Rightarrow> first_text rs,
                   evs4 @ [Create (summary_request q (messages L))]))"
        using p ts resp
        by (simp add: process_query_def loop_request_def initial_messages_def entry_events_def
            entry_locals_def summary_request_def Let_def
            split: option.split sum.split prod.split)
      show ?thesis
      proof (cases ?loop)
        case None
        with run unfolded show ?thesis by simp
      next
        case (Some res)
        obtain r evs4 where res: "res = (r, evs4)" by (cases res)
        show ?thesis
        proof (cases r)
          case (Inl e)
          with run unfolded Some res loop_raises [of ts resp e] show ?thesis by simp
        next
          case (Inr L)
          with run unfolded Some res summary [of ts resp L evs4] show ?thesis by simp
        qed
      qed
    qed
  qed
qed

subsection \<open>Tool results answer the turn before them\<close>

lemma results_matched_from_append:
  "results_matched_from prev (xs @ ys) =
   (results_matched_from prev xs \<and>
    results_matched_from (if xs = [] then prev else Some (last xs)) ys)"
  by (induction xs arbitrary: prev) auto

lemma request_ids_texts: "list_all is_Text bs \<Longrightarrow> request_ids bs = []"
  by (induction bs rule: request_ids.induct) simp_all

lemma result_ids_texts: "list_all is_Text bs \<Longrightarrow> result_ids bs = []"
  by (induction bs rule: result_ids.induct) simp_all

lemma result_ids_append: "result_ids (xs @ ys) = result_ids xs @ result_ids ys"
  by (induction xs rule: result_ids.induct) simp_all

lemma request_ids_append: "request_ids (xs @ ys) = request_ids xs @ request_ids ys"
  by (induction xs rule: request_ids.induct) simp_all

lemma results_matched_tool_turns:
  assumes "results_matched msgs" and "list_all is_Text amc"
  shows "results_matched (msgs @ tool_turns amc i n a out)"
  using assms
  by (simp add: results_matched_def results_matched_from_append tool_turns_def blocks_of_def
      answered_by_def request_ids_append request_ids_texts result_ids_append
      result_ids_texts)

lemma loop_results_matched:
  assumes run: "conversation_loop env tools L evs [] blocks = Some (out, evs')"
    and init: "results_matched (messages L)" "transcripts_matched evs"
  shows "transcripts_matched evs' \<and> (\<forall>L'. out = Inr L' \<longrightarrow> results_matched (messages L'))"
proof -
  let ?I = "\<lambda>L evs amc. results_matched (messages L) \<and> transcripts_matched evs \<and>
              list_all is_Text amc"
  let ?Q = "\<lambda>res. transcripts_matched (snd res) \<and>
              (\<forall>L'. fst res = Inr L' \<longrightarrow> results_matched (messages L'))"
  have "?Q (out, evs')"
  proof (rule loop_rule [where I = ?I and Q = ?Q, OF run], goal_cases)
    case 1
    from init show ?case by simp
  next
    case (2 L evs amc t)
    then show ?case by simp
  next
    case (3 L evs amc i n a r resp)
    then show ?case
      by (simp add: results_matched_tool_turns transcripts_matched_def transcript_matched_def
          loop_request_def)
  next
    case (4 L evs amc)
    then show ?case by simp
  next
    case (5 L evs amc n a e)
    then show ?case by (simp add: transcripts_matched_def transcript_matched_def)
  next
    case (6 L evs amc i n a r e)
    then show ?case
      by (simp add: results_matched_tool_turns transcripts_matched_def transcript_matched_def
          loop_request_def)
  qed
  then show ?thesis by simp
qed

subsection \<open>The scenario of the specification\<close>

lemma scenario_run_from:
  "creates evs = 0 \<Longrightarrow> calls evs = 0 \<Longrightarrow>
   process_query (scenario i summary) q evs =
     Some (first_text summary, evs @ scenario_trace i q)"
  by (simp add: process_query_def scenario_def scenario_gateway_def hello_def stub_def Let_def
      to_dict_def loop_ToolUse_returns loop_Text loop_Nil scenario_trace_def
      scenario_loop_trace_def scenario_transcript_def scenario_tools_def loop_request_def
      summary_request_def initial_messages_def)

lemma scenario_run:
  "process_query (scenario i summary) q [] = Some (first_text summary, scenario_trace i q)"
  by (simp add: scenario_run_from)

text \<open>
  Claim C1. In the scenario (one tool \<^verbatim>\<open>read_file\<close>; the gateway first requests
  \<^verbatim>\<open>read_file({file_path: "/a.txt"})\<close>, then answers \<^verbatim>\<open>done\<close>; the tool returns \<^verbatim>\<open>hello\<close>)
  \<^verbatim>\<open>process_query\<close> returns the text of the first block of the summary response, after exactly
  two gateway calls of the loop, one summary call and one tool call, which is to
  \<^verbatim>\<open>read_file\<close>.
\<close>

theorem scenario_counts:
  "process_query (scenario i (Text s # others)) q [] = Some (Inr s, scenario_trace i q) \<and>
   loop_creates (scenario_trace i q) = 2 \<and>
   summary_creates (scenario_trace i q) = 1 \<and>
   calls_of ''read_file'' (scenario_trace i q) = 1 \<and>
   calls (scenario_trace i q) = 1"
  by (simp add: scenario_run first_text_def scenario_trace_def scenario_loop_trace_def calls_of_def loop_request_def
      summary_request_def)

text \<open>
  Claim C5. Every transcript that a run of \<^verbatim>\<open>process_query\<close> sends to the gateway or has at
  hand when it calls a tool keeps the matching of tool results: each \<^verbatim>\<open>tool_result\<close> block
  carries an identifier that exactly one \<^verbatim>\<open>tool_use\<close> block of the turn immediately before it
  carries, and that turn is an assistant turn.
\<close>

theorem transcripts_stay_matched:
  assumes "transcripts_matched evs" and "process_query env q evs = Some (out, evs')"
  shows "transcripts_matched evs'"
  using assms(2)
proof (cases rule: process_query_cases)
  case (prompt_raises e)
  with assms(1) show ?thesis by (simp add: transcripts_matched_def transcript_matched_def)
next
  case (listing_raises e)
  with assms(1) show ?thesis by (simp add: transcripts_matched_def transcript_matched_def)
next
  case (first_create_raises ts e)
  with assms(1) show ?thesis
    by (simp add: transcripts_matched_def transcript_matched_def entry_events_def
        loop_request_def initial_messages_def results_matched_def blocks_of_def)
next
  case (loop_raises ts resp e)
  have "transcripts_matched (entry_events evs (map to_dict ts) q)"
    using assms(1)
    by (simp add: transcripts_matched_def transcript_matched_def entry_events_def
        loop_request_def initial_messages_def results_matched_def blocks_of_def)
  with loop_results_matched [OF loop_raises(1)] show ?thesis
    by (simp add: entry_locals_def initial_messages_def results_matched_def blocks_of_def)
next
  case (summary ts resp L evs4)
  have "transcripts_matched (entry_events evs (map to_dict ts) q)"
    using assms(1)
    by (simp add: transcripts_matched_def transcript_matched_def entry_events_def
        loop_request_def initial_messages_def results_matched_def blocks_of_def)
  with loop_results_matched [OF summary(1)]
  have "transcripts_matched evs4 \<and> results_matched (messages L)"
    by (simp add: entry_locals_def initial_messages_def results_matched_def blocks_of_def)
  with summary(2) show ?thesis
    by (simp add: transcripts_matched_def transcript_matched_def summary_request_def)
qed

theorem transcripts_stay_matched_witness:
  "transcripts_matched [] \<and>
   process_query (scenario ''t1'' [Text ''read''])  ''list files'' [] =
     Some (Inr ''read'', scenario_trace ''t1'' ''list files'') \<and>
   transcripts_matched (scenario_trace ''t1'' ''list files'')"
proof -
  have h: "transcripts_matched []" by (simp add: transcripts_matched_def)
  have run: "process_query (scenario ''t1'' [Text ''read'']) ''list files'' [] =
     Some (Inr ''read'', scenario_trace ''t1'' ''list files'')"
    by (simp add: scenario_run first_text_def)
  from h run transcripts_stay_matched [OF h run] show ?thesis by simp
qed

subsection \<open>Tool calls come before their turns; gateway calls come after them\<close>

lemma next_commits_append:
  "xs \<noteq> [] \<Longrightarrow> next_commits e (xs @ ys) = next_commits e xs"
  by (cases xs) (auto simp: next_commits_def split: event.splits)

lemma sequenced_append:
  "sequenced (xs @ ys) =
   (sequenced xs \<and> sequenced ys \<and> (xs = [] \<or> ys = [] \<or> next_commits (last xs) ys))"
proof (induction xs)
  case Nil
  then show ?case by simp
next
  case (Cons e xs)
  show ?case
  proof (cases "xs = []")
    case True
    then show ?thesis by (cases ys) (auto simp: next_commits_def split: event.splits)
  next
    case False
    with Cons show ?thesis by (auto simp: next_commits_append)
  qed
qed

lemma pending_call_snoc [simp]:
  "pending_call (evs @ [e]) = is_CallTool e"
  by (cases e) (simp_all add: pending_call_def)

lemma pending_call_Nil [simp]: "\<not> pending_call []"
  by (simp add: pending_call_def)

lemma pending_call_last: "pending_call evs = (evs \<noteq> [] \<and> is_CallTool (last evs))"
  by (cases evs rule: rev_cases) simp_all

lemma sequenced_extend:
  assumes "sequenced evs" "\<not> pending_call evs" "sequenced new"
  shows "sequenced (evs @ new)"
proof -
  have "evs = [] \<or> new = [] \<or> next_commits (last evs) new"
    using assms(2) by (cases "last evs") (auto simp: pending_call_last next_commits_def)
  with assms show ?thesis by (simp add: sequenced_append)
qed

lemma commits_tool_turns:
  "commits msgs n a (msgs @ tool_turns amc i n a out)"
  by (simp add: commits_def tool_turns_def blocks_of_def)

lemma sequenced_call:
  "sequenced [CallTool n a msgs, Create (loop_request tools (msgs @ tool_turns amc i n a out))]"
  by (simp add: next_commits_def commits_tool_turns loop_request_def)

lemma loop_sequenced:
  assumes run: "conversation_loop env tools L evs [] blocks = Some (out, evs')"
    and init: "sequenced evs" "\<not> pending_call evs"
  shows "sequenced evs' \<and> (\<forall>L'. out = Inr L' \<longrightarrow> \<not> pending_call evs')"
proof -
  let ?I = "\<lambda>(L::locals) evs (amc::content_block list). sequenced evs \<and> \<not> pending_call evs"
  let ?Q = "\<lambda>res. sequenced (snd res) \<and> (\<forall>L'. fst res = Inr L' \<longrightarrow> \<not> pending_call (snd res))"
  have "?Q (out, evs')"
  proof (rule loop_rule [where I = ?I and Q = ?Q, OF run], goal_cases)
    case 1
    from init show ?case by simp
  next
    case (2 L evs amc t)
    then show ?case by simp
  next
    case (3 L evs amc i n a r resp)
    then show ?case
      using sequenced_extend [OF _ _ sequenced_call, of evs n a "messages L" tools amc i
          "result_content r"]
        pending_call_snoc [of "evs @ [CallTool n a (messages L)]"]
      by simp
  next
    case (4 L evs amc)
    then show ?case by simp
  next
    case (5 L evs amc n a e)
    then show ?case
      using sequenced_extend [of evs "[CallTool n a (messages L)]"]
      by (simp add: next_commits_def)
  next
    case (6 L evs amc i n a r e)
    then show ?case
      using sequenced_extend [OF _ _ sequenced_call, of evs n a "messages L" tools amc i
          "result_content r"]
      by simp
  qed
  then show ?thesis by simp
qed
lemma sequenced_entry:
  assumes "sequenced evs" "\<not> pending_call evs"
  shows "sequenced (entry_events evs tools q) \<and> \<not> pending_call (entry_events evs tools q)"
proof -
  have "sequenced [GetPrompt ''analysis_system_prompt'', ListTools,
            Create (loop_request tools (initial_messages q))]"
    by (simp add: next_commits_def)
  from sequenced_extend [OF assms this] show ?thesis
    using pending_call_snoc [of "evs @ [GetPrompt ''analysis_system_prompt'', ListTools]"]
    by (simp add: entry_events_def)
qed

text \<open>
  Claim C6, as amended. The tool is called with the transcript as it was before the assistant
  turn that requests it is appended. Both that assistant turn and the tool-result turn are
  appended, in this order and with nothing else, before the next gateway call is issued: the
  transcript of that gateway call is the transcript seen by the tool call followed by exactly
  these two turns.
\<close>

theorem process_query_sequenced:
  assumes "sequenced evs" and "\<not> pending_call evs"
    and run: "process_query env q evs = Some (out, evs')"
  shows "sequenced evs'"
  using run
proof (cases rule: process_query_cases)
  case (prompt_raises e)
  with sequenced_extend [OF assms(1,2), of "[GetPrompt ''analysis_system_prompt'']"]
  show ?thesis by (simp add: next_commits_def)
next
  case (listing_raises e)
  with sequenced_extend [OF assms(1,2), of "[GetPrompt ''analysis_system_prompt'', ListTools]"]
  show ?thesis by (simp add: next_commits_def)
next
  case (first_create_raises ts e)
  with sequenced_entry [OF assms(1,2)] show ?thesis by simp
next
  case (loop_raises ts resp e)
  from sequenced_entry [OF assms(1,2), of "map to_dict ts" q] loop_sequenced [OF loop_raises(1)]
  show ?thesis by simp
next
  case (summary ts resp L evs4)
  from sequenced_entry [OF assms(1,2), of "map to_dict ts" q] loop_sequenced [OF summary(1)]
  have "sequenced evs4" "\<not> pending_call evs4" by simp_all
  from sequenced_extend [OF this, of "[Create (summary_request q (messages L))]"] summary(2)
  show ?thesis by (simp add: next_commits_def)
qed

theorem process_query_sequenced_witness:
  "sequenced [] \<and> \<not> pending_call [] \<and>
   process_query (scenario ''t1'' [Text ''read'']) ''list files'' [] =
     Some (Inr ''read'', scenario_trace ''t1'' ''list files'') \<and>
   sequenced (scenario_trace ''t1'' ''list files'')"
proof -
  have h1: "sequenced []" by simp
  have h2: "\<not> pending_call []" by simp
  have run: "process_query (scenario ''t1'' [Text ''read'']) ''list files'' [] =
     Some (Inr ''read'', scenario_trace ''t1'' ''list files'')"
    by (simp add: scenario_run first_text_def)
  from h1 h2 run process_query_sequenced [OF h1 h2 run] show ?thesis by simp
qed

text \<open>
  Claim C6 asks for the other order, the assistant turn committed before the tool is called.
  That fails in the scenario: \<^verbatim>\<open>read_file\<close> is called while the transcript holds the user's
  query only.
\<close>

theorem invoked_after_commit_counterexample:
  "process_query (scenario ''t1'' [Text ''read'']) ''list files'' [] =
     Some (Inr ''read'', scenario_trace ''t1'' ''list files'') \<and>
   \<not> invoked_after_commit (scenario_trace ''t1'' ''list files'')"
  by (simp add: scenario_run first_text_def scenario_trace_def scenario_loop_trace_def invoked_after_commit_def
      requested_in_def initial_messages_def blocks_of_def)

subsection \<open>The summary call\<close>

text \<open>
  At every way out of the loop the last event is not a summary call and the loop has issued no
  summary call. At the normal exit the last event is the gateway call of the loop that was
  given the transcript as it now is, and that transcript ends with a user turn.
\<close>

lemma loop_exit_state:
  assumes run: "conversation_loop env tools L evs [] blocks = Some (out, evs')"
    and init: "evs \<noteq> []" "last evs = Create (loop_request tools (messages L))"
      "messages L \<noteq> []" "role (last (messages L)) = User"
  shows "\<not> ends_with_summary evs' \<and> summary_creates evs' = summary_creates evs \<and>
    (\<forall>L'. out = Inr L' \<longrightarrow>
       evs' \<noteq> [] \<and> last evs' = Create (loop_request tools (messages L')) \<and>
       messages L' \<noteq> [] \<and> role (last (messages L')) = User)"
proof -
  let ?c = "summary_creates evs"
  let ?I = "\<lambda>L evs' (amc::content_block list).
       evs' \<noteq> [] \<and> last evs' = Create (loop_request tools (messages L)) \<and>
       messages L \<noteq> [] \<and> role (last (messages L)) = User \<and> summary_creates evs' = ?c"
  let ?Q = "\<lambda>res. \<not> ends_with_summary (snd res) \<and> summary_creates (snd res) = ?c \<and>
    (\<forall>L'. fst res = Inr L' \<longrightarrow>
       snd res \<noteq> [] \<and> last (snd res) = Create (loop_request tools (messages L')) \<and>
       messages L' \<noteq> [] \<and> role (last (messages L')) = User)"
  have "?Q (out, evs')"
  proof (rule loop_rule [where I = ?I and Q = ?Q, OF run], goal_cases)
    case 1
    from init show ?case by simp
  next
    case (2 L evs amc t)
    then show ?case by simp
  next
    case (3 L evs amc i n a r resp)
    then show ?case by (simp add: tool_turns_def loop_request_def)
  next
    case (4 L evs amc)
    then show ?case
      by (cases evs rule: rev_cases) (simp_all add: loop_request_def)
  next
    case (5 L evs amc n a e)
    then show ?case by simp
  next
    case (6 L evs amc i n a r e)
    then show ?case by (simp add: loop_request_def)
  qed
  then show ?thesis by simp
qed

lemma entry_state:
  "entry_events evs tools q \<noteq> [] \<and>
   last (entry_events evs tools q) = Create (loop_request tools (messages (entry_locals q resp))) \<and>
   messages (entry_locals q resp) \<noteq> [] \<and>
   role (last (messages (entry_locals q resp))) = User \<and>
   summary_creates (entry_events evs tools q) = summary_creates evs"
  by (simp add: entry_events_def entry_locals_def initial_messages_def loop_request_def)

text \<open>
  Claim C7, as amended. When \<^verbatim>\<open>process_query\<close> returns a string, the last thing it did was
  one gateway call with the instruction to summarise with respect to the query and without
  tools; it is the only such call of the run. Its message input is the transcript built by
  the loop, which is the very transcript the last gateway call of the loop was given and
  which ends with a user turn: the final assistant turn, the one without a tool request, is
  not appended to it. The string returned is the text of the first block of the response.
\<close>

theorem summary_after_loop:
  assumes run: "process_query env q evs = Some (Inr s, evs')"
  shows "\<exists>evs4 tools msgs rs.
    evs' = evs4 @ [Create (summary_request q msgs)] \<and>
    summary_creates evs' = summary_creates evs + 1 \<and>
    evs4 \<noteq> [] \<and> last evs4 = Create (loop_request tools msgs) \<and>
    msgs \<noteq> [] \<and> role (last msgs) = User \<and>
    create env (creates evs4) (summary_request q msgs) = Inr rs \<and> first_text rs = Inr s"
  using run
proof (cases rule: process_query_cases)
  case (summary ts resp L evs4)
  from loop_exit_state [OF summary(1)] entry_state [of evs "map to_dict ts" q resp]
  have exit: "summary_creates evs4 = summary_creates evs" "evs4 \<noteq> []"
    "last evs4 = Create (loop_request (map to_dict ts) (messages L))"
    "messages L \<noteq> []" "role (last (messages L)) = User"
    by simp_all
  from summary(3) obtain rs where
    rs: "create env (creates evs4) (summary_request q (messages L)) = Inr rs" "first_text rs = Inr s"
    by (cases "create env (creates evs4) (summary_request q (messages L))") simp_all
  from summary(2) exit rs show ?thesis
    by (intro exI [of _ evs4] exI [of _ "map to_dict ts"] exI [of _ "messages L"] exI [of _ rs])
      (simp add: summary_request_def)
qed simp_all

theorem summary_after_loop_witness:
  "process_query (scenario ''t1'' [Text ''read'']) ''list files'' [] =
     Some (Inr ''read'', scenario_trace ''t1'' ''list files'') \<and>
   (\<exists>evs4 tools msgs rs.
    scenario_trace ''t1'' ''list files'' = evs4 @ [Create (summary_request ''list files'' msgs)] \<and>
    summary_creates (scenario_trace ''t1'' ''list files'') = summary_creates [] + 1 \<and>
    evs4 \<noteq> [] \<and> last evs4 = Create (loop_request tools msgs) \<and>
    msgs \<noteq> [] \<and> role (last msgs) = User \<and>
    create (scenario ''t1'' [Text ''read'']) (creates evs4) (summary_request ''list files'' msgs)
      = Inr rs \<and>
    first_text rs = Inr ''read'')"
proof -
  have run: "process_query (scenario ''t1'' [Text ''read'']) ''list files'' [] =
     Some (Inr ''read'', scenario_trace ''t1'' ''list files'')"
    by (simp add: scenario_run first_text_def)
  from run summary_after_loop [OF run] show ?thesis by blast
qed

text \<open>
  Claim C7 counts the final assistant turn among the message input of the summary call. In
  the scenario that turn is the text \<^verbatim>\<open>done\<close>, and the message input of the summary call does
  not hold it.
\<close>

theorem summary_input_counterexample:
  "process_query (scenario ''t1'' [Text ''read'']) ''list files'' [] =
     Some (Inr ''read'', scenario_trace ''t1'' ''list files'') \<and>
   last (scenario_trace ''t1'' ''list files'') =
     Create (summary_request ''list files'' (scenario_transcript ''t1'' ''list files'')) \<and>
   \<lparr>role = Assistant, content = Blocks [Text ''done'']\<rparr>
     \<notin> set (scenario_transcript ''t1'' ''list files'')"
  by (simp add: scenario_run first_text_def scenario_trace_def scenario_loop_trace_def scenario_transcript_def
      initial_messages_def tool_turns_def)

subsection \<open>The value returned\<close>

text \<open>
  Claim C10. When the last event of a run of \<^verbatim>\<open>process_query\<close> is the summary call and the
  gateway answers it with the blocks \<open>rs\<close>, the outcome is decided by the first block alone:
  a text block makes the run return its text, whatever blocks follow, and an empty \<open>rs\<close> makes
  the run raise \<^verbatim>\<open>IndexError\<close>.
\<close>

theorem returns_first_block_text:
  assumes run: "process_query env q evs = Some (out, evs4 @ [Create sreq])"
    and summary_call: "req_system sreq \<noteq> None"
    and answer: "create env (creates evs4) sreq = Inr rs"
  shows "(rs = [] \<longrightarrow> out = Inl IndexError) \<and> (\<forall>t rest. rs = Text t # rest \<longrightarrow> out = Inr t)"
proof -
  have ends: "ends_with_summary (evs4 @ [Create sreq])"
    using summary_call by simp
  from run have "out = first_text rs"
  proof (cases rule: process_query_cases)
    case (prompt_raises e)
    with ends show ?thesis by simp
  next
    case (listing_raises e)
    with ends show ?thesis by simp
  next
    case (first_create_raises ts e)
    from ends have "ends_with_summary (entry_events evs (map to_dict ts) q)"
      unfolding first_create_raises(3) .
    then show ?thesis by (simp add: entry_events_def loop_request_def)
  next
    case (loop_raises ts resp e)
    from loop_exit_state [OF loop_raises(1)] entry_state [of evs "map to_dict ts" q resp] ends
    show ?thesis by simp
  next
    case (summary ts resp L evs5)
    with answer show ?thesis by simp
  qed
  then show ?thesis by (simp add: first_text_def)
qed

theorem returns_first_block_text_witness:
  "process_query (scenario ''t1'' [Text ''read'', Text ''more'']) ''list files'' [] =
     Some (Inr ''read'', scenario_loop_trace ''t1'' ''list files'' @
        [Create (summary_request ''list files'' (scenario_transcript ''t1'' ''list files''))]) \<and>
   process_query (scenario ''t1'' []) ''list files'' [] =
     Some (Inl IndexError, scenario_loop_trace ''t1'' ''list files'' @
        [Create (summary_request ''list files'' (scenario_transcript ''t1'' ''list files''))]) \<and>
   req_system (summary_request ''list files'' (scenario_transcript ''t1'' ''list files'')) \<noteq> None \<and>
   create (scenario ''t1'' [Text ''read'', Text ''more''])
     (creates (scenario_loop_trace ''t1'' ''list files''))
     (summary_request ''list files'' (scenario_transcript ''t1'' ''list files'')) =
     Inr [Text ''read'', Text ''more''] \<and>
   create (scenario ''t1'' [])
     (creates (scenario_loop_trace ''t1'' ''list files''))
     (summary_request ''list files'' (scenario_transcript ''t1'' ''list files'')) = Inr []"
proof -
  let ?evs4 = "scenario_loop_trace ''t1'' ''list files''"
  let ?sreq = "summary_request ''list files'' (scenario_transcript ''t1'' ''list files'')"
  have trace: "scenario_trace ''t1'' ''list files'' = ?evs4 @ [Create ?sreq]"
    by (simp add: scenario_trace_def scenario_loop_trace_def)
  have sys: "req_system ?sreq \<noteq> None" by (simp add: summary_request_def)
  have n: "creates ?evs4 = 2" by (simp add: scenario_loop_trace_def)
  have a1: "create (scenario ''t1'' [Text ''read'', Text ''more'']) (creates ?evs4) ?sreq =
      Inr [Text ''read'', Text ''more'']"
    by (simp add: n scenario_def scenario_gateway_def stub_def)
  have a2: "create (scenario ''t1'' []) (creates ?evs4) ?sreq = Inr []"
    by (simp add: n scenario_def scenario_gateway_def stub_def)
  obtain out1 where r1: "process_query (scenario ''t1'' [Text ''read'', Text ''more''])
      ''list files'' [] = Some (out1, ?evs4 @ [Create ?sreq])"
    using trace by (simp add: scenario_run)
  obtain out2 where r2: "process_query (scenario ''t1'' []) ''list files'' [] =
      Some (out2, ?evs4 @ [Create ?sreq])"
    using trace by (simp add: scenario_run)
  from returns_first_block_text [OF r1 sys a1] have "out1 = Inr ''read''" by simp
  moreover from returns_first_block_text [OF r2 sys a2] have "out2 = Inl IndexError" by simp
  ultimately show ?thesis using r1 r2 sys a1 a2 by simp
qed

subsection \<open>Cleanup\<close>

lemma loop_no_cleanup:
  assumes run: "conversation_loop env tools L evs [] blocks = Some (out, evs')"
  shows "count_list evs' Aclose = count_list evs Aclose"
proof -
  let ?c = "count_list evs Aclose"
  let ?I = "\<lambda>(L::locals) evs' (amc::content_block list). count_list evs' Aclose = ?c"
  let ?Q = "\<lambda>res::(error + locals) \<times> event list. count_list (snd res) Aclose = ?c"
  have "?Q (out, evs')"
    by (rule loop_rule [where I = ?I and Q = ?Q, OF run]) simp_all
  then show ?thesis by simp
qed

lemma process_query_no_cleanup:
  assumes run: "process_query env q evs = Some (out, evs')"
  shows "count_list evs' Aclose = count_list evs Aclose"
  using run
proof (cases rule: process_query_cases)
  case (loop_raises ts resp e)
  from loop_no_cleanup [OF loop_raises(1)] show ?thesis by (simp add: entry_events_def)
next
  case (summary ts resp L evs4)
  from loop_no_cleanup [OF summary(1)] summary(2) show ?thesis by (simp add: entry_events_def)
qed (simp_all add: entry_events_def)

lemma connect_no_cleanup:
  "connect_to_server env uid path evs = (out, evs') \<Longrightarrow>
   count_list evs' Aclose = count_list evs Aclose"
  by (auto simp: connect_to_server_def Let_def split: if_splits sum.splits)

lemma finally_cleanup_once:
  "finally_cleanup env (out, evs) = (out', evs') \<Longrightarrow>
   evs' = evs @ [Aclose]"
  by (auto simp: finally_cleanup_def cleanup_def split: sum.splits)

text \<open>
  Claim C9. On every way out of the request handler \<^verbatim>\<open>analysis_agent\<close>, whether
  \<^verbatim>\<open>connect_to_server\<close> raised, \<^verbatim>\<open>process_query\<close> raised or \<^verbatim>\<open>process_query\<close> returned,
  \<^verbatim>\<open>cleanup\<close> has been called exactly once, and it is the last thing the handler did.
\<close>

theorem cleanup_exactly_once:
  assumes "analysis_agent env request = Some (out, evs)"
  shows "count_list evs Aclose = 1 \<and> last evs = Aclose"
proof -
  obtain r1 evs1 where c: "connect_to_server env (user_id request) ''analysisagent/server.py'' []
      = (r1, evs1)"
    by (cases "connect_to_server env (user_id request) ''analysisagent/server.py'' []")
  from connect_no_cleanup [OF c] have n1: "count_list evs1 Aclose = 0" by simp
  show ?thesis
  proof (cases r1)
    case (Inl e)
    with assms c have "finally_cleanup env (Inl e, evs1) = (out, evs)"
      by (simp add: analysis_agent_def)
    from finally_cleanup_once [OF this] n1 show ?thesis by simp
  next
    case (Inr u)
    show ?thesis
    proof (cases "process_query env (description request) evs1")
      case None
      with assms c Inr show ?thesis by (simp add: analysis_agent_def)
    next
      case (Some res)
      obtain r2 evs2 where res: "res = (r2, evs2)" by (cases res)
      from process_query_no_cleanup [OF Some [unfolded res]] n1
      have n2: "count_list evs2 Aclose = 0" by simp
      from assms c Inr Some res have "finally_cleanup env (r2, evs2) = (out, evs)"
        by (simp add: analysis_agent_def)
      from finally_cleanup_once [OF this] n2 show ?thesis by simp
    qed
  qed
qed

lemma connect_default:
  "connect_to_server (scenario i summary\<lparr>get_prompt := g\<rparr>) uid ''analysisagent/server.py'' [] =
     (Inr (), connect_trace uid)"
  by (simp add: connect_to_server_def scenario_def stub_def connect_trace_def suffix_to_prefix)

lemma scenario_aclose: "aclose (scenario i summary) = Inr ()"
  by (simp add: scenario_def stub_def)

theorem cleanup_exactly_once_witness:
  "analysis_agent (scenario ''t1'' [Text ''read''])
     \<lparr>user_id = ''u1'', description = ''list files'', ticket_id = ''7''\<rparr> =
     Some (Inr ''read'', connect_trace ''u1'' @ scenario_trace ''t1'' ''list files'' @ [Aclose]) \<and>
   count_list (connect_trace ''u1'' @ scenario_trace ''t1'' ''list files'' @ [Aclose]) Aclose = 1 \<and>
   analysis_agent (scenario ''t1'' [Text ''read'']\<lparr>get_prompt := \<lambda>_. Inl (Raised ''closed'')\<rparr>)
     \<lparr>user_id = ''u1'', description = ''list files'', ticket_id = ''7''\<rparr> =
     Some (Inl (Raised ''closed''),
           connect_trace ''u1'' @ [GetPrompt ''analysis_system_prompt'', Aclose]) \<and>
   count_list (connect_trace ''u1'' @ [GetPrompt ''analysis_system_prompt'', Aclose]) Aclose = 1"
proof -
  let ?req = "\<lparr>user_id = ''u1'', description = ''list files'', ticket_id = ''7''\<rparr>"
  have same: "scenario ''t1'' [Text ''read''] =
      scenario ''t1'' [Text ''read'']\<lparr>get_prompt := get_prompt (scenario ''t1'' [Text ''read''])\<rparr>"
    by simp
  have connect: "connect_to_server (scenario ''t1'' [Text ''read'']) ''u1''
      ''analysisagent/server.py'' [] = (Inr (), connect_trace ''u1'')"
    by (subst same) (rule connect_default)
  have run1: "analysis_agent (scenario ''t1'' [Text ''read'']) ?req =
     Some (Inr ''read'', connect_trace ''u1'' @ scenario_trace ''t1'' ''list files'' @ [Aclose])"
    by (simp add: analysis_agent_def connect scenario_run_from connect_trace_def first_text_def
        finally_cleanup_def cleanup_def scenario_aclose)
  have run2: "analysis_agent
      (scenario ''t1'' [Text ''read'']\<lparr>get_prompt := \<lambda>_. Inl (Raised ''closed'')\<rparr>) ?req =
     Some (Inl (Raised ''closed''),
           connect_trace ''u1'' @ [GetPrompt ''analysis_system_prompt'', Aclose])"
    by (simp add: analysis_agent_def connect_default process_query_def
        finally_cleanup_def cleanup_def scenario_aclose)
  from run1 run2 cleanup_exactly_once [OF run1] cleanup_exactly_once [OF run2]
  show ?thesis by simp
qed

subsection \<open>The first tool request of a response\<close>

lemma loop_first_tool_use:
  assumes "\<not> has_tool_use pre" and "call_tool env (calls evs) n a = Inr r"
  shows "conversation_loop env tools L evs [] (pre @ ToolUse i n a # post) =
    (let msgs = messages L @ tool_turns (filter is_Text pre) i n a (result_content r);
         evs2 = evs @ [CallTool n a (messages L), Create (loop_request tools msgs)]
     in case create env (creates evs) (loop_request tools msgs) of
          Inl e \<Rightarrow> Some (Inl e, evs2)
        | Inr resp \<Rightarrow>
            conversation_loop env tools
              \<lparr>messages = msgs, final_text = final_text L @ fragments pre @ [Calling n a],
               response = resp\<rparr>
              evs2 [] resp)"
  using assms by (simp add: loop_scan loop_ToolUse_returns Let_def split: sum.split)

text \<open>
  Claim C2. Let a response hold a \<^verbatim>\<open>tool_use\<close> block, \<open>pre\<close> being the blocks before the first
  one and \<open>post\<close> the blocks after it, and let the registry answer the call with a result.
  Then the loop calls that tool once with the given name and arguments, appends the
  assistant turn made of the text blocks of \<open>pre\<close> and the \<^verbatim>\<open>tool_use\<close> block, appends a user
  turn whose only block is the \<^verbatim>\<open>tool_result\<close> with the same identifier, and issues the next
  gateway call at once. Nothing in this depends on \<open>post\<close>: the run is the one of the response
  cut after its first \<^verbatim>\<open>tool_use\<close> block.
\<close>

theorem first_tool_use_only:
  assumes "\<not> has_tool_use pre" and "call_tool env (calls evs) n a = Inr r"
  shows "conversation_loop env tools L evs [] (pre @ ToolUse i n a # post) =
    (let msgs = messages L @ tool_turns (filter is_Text pre) i n a (result_content r);
         evs2 = evs @ [CallTool n a (messages L), Create (loop_request tools msgs)]
     in case create env (creates evs) (loop_request tools msgs) of
          Inl e \<Rightarrow> Some (Inl e, evs2)
        | Inr resp \<Rightarrow>
            conversation_loop env tools
              \<lparr>messages = msgs, final_text = final_text L @ fragments pre @ [Calling n a],
               response = resp\<rparr>
              evs2 [] resp) \<and>
    conversation_loop env tools L evs [] (pre @ ToolUse i n a # post) =
    conversation_loop env tools L evs [] (pre @ [ToolUse i n a])"
  using loop_first_tool_use [OF assms, of tools L i post]
    loop_first_tool_use [OF assms, of tools L i "[]"]
  by simp

theorem first_tool_use_only_witness:
  "\<not> has_tool_use [Text ''reading'', OtherBlock ''thinking''] \<and>
   call_tool (scenario ''t1'' [])
     (calls [Create (loop_request scenario_tools (initial_messages ''list files''))])
     ''read_file'' [(''file_path'', ''/a.txt'')] = Inr hello \<and>
   conversation_loop (scenario ''t1'' []) scenario_tools (entry_locals ''list files'' [])
     [Create (loop_request scenario_tools (initial_messages ''list files''))] []
     ([Text ''reading'', OtherBlock ''thinking''] @
      ToolUse ''t1'' ''read_file'' [(''file_path'', ''/a.txt'')] #
      [ToolUse ''t2'' ''read_file'' [(''file_path'', ''/b.txt'')], Text ''later'']) =
   Some (Inr \<lparr>messages = initial_messages ''list files'' @
                 tool_turns [Text ''reading''] ''t1'' ''read_file'' [(''file_path'', ''/a.txt'')]
                   ''hello'',
               final_text = [Fragment ''reading'',
                 Calling ''read_file'' [(''file_path'', ''/a.txt'')], Fragment ''done''],
               response = [Text ''done'']\<rparr>,
         [Create (loop_request scenario_tools (initial_messages ''list files'')),
          CallTool ''read_file'' [(''file_path'', ''/a.txt'')] (initial_messages ''list files''),
          Create (loop_request scenario_tools (initial_messages ''list files'' @
                 tool_turns [Text ''reading''] ''t1'' ''read_file'' [(''file_path'', ''/a.txt'')]
                   ''hello''))])"
proof -
  let ?evs = "[Create (loop_request scenario_tools (initial_messages ''list files''))]"
  have pre: "\<not> has_tool_use [Text ''reading'', OtherBlock ''thinking'']"
    by (simp add: has_tool_use_def)
  have call: "call_tool (scenario ''t1'' []) (calls ?evs) ''read_file''
      [(''file_path'', ''/a.txt'')] = Inr hello"
    by (simp add: scenario_def stub_def)
  have next_response: "\<And>req. create (scenario ''t1'' []) (Suc 0) req = Inr [Text ''done'']"
    by (simp add: scenario_def scenario_gateway_def stub_def)
  from pre call
    first_tool_use_only [OF pre call, of scenario_tools "entry_locals ''list files'' []" "''t1''"
      "[ToolUse ''t2'' ''read_file'' [(''file_path'', ''/b.txt'')], Text ''later'']"]
  show ?thesis
    by (simp add: next_response Let_def loop_no_tool_use has_tool_use_def entry_locals_def
        hello_def fragments_def)
qed
subsection \<open>A tool call that fails\<close>

text \<open>
  Claim C4, as amended. A failure that the registry reports as a result (\<^verbatim>\<open>isError\<close> set) is
  handled as any result is: its content goes into a \<^verbatim>\<open>tool_result\<close> block with the identifier
  of the call, in a user turn appended after the assistant turn, and the next gateway call is
  issued. A failure that \<^verbatim>\<open>call_tool\<close> raises is not caught: it ends the run as its outcome,
  with no turn appended and no further gateway call.
\<close>

theorem tool_failure_outcomes:
  assumes "\<not> has_tool_use pre"
  shows "(call_tool env (calls evs) n a = Inr r \<and> isError r \<longrightarrow>
      conversation_loop env tools L evs [] (pre @ ToolUse i n a # post) =
      (let msgs = messages L @ tool_turns (filter is_Text pre) i n a (result_content r);
           evs2 = evs @ [CallTool n a (messages L), Create (loop_request tools msgs)]
       in case create env (creates evs) (loop_request tools msgs) of
            Inl e \<Rightarrow> Some (Inl e, evs2)
          | Inr resp \<Rightarrow>
              conversation_loop env tools
                \<lparr>messages = msgs, final_text = final_text L @ fragments pre @ [Calling n a],
                 response = resp\<rparr>
                evs2 [] resp)) \<and>
    (call_tool env (calls evs) n a = Inl e \<longrightarrow>
      conversation_loop env tools L evs [] (pre @ ToolUse i n a # post) =
      Some (Inl e, evs @ [CallTool n a (messages L)]))"
proof (intro conjI impI)
  assume "call_tool env (calls evs) n a = Inr r \<and> isError r"
  then have "call_tool env (calls evs) n a = Inr r" by simp
  from loop_first_tool_use [OF assms this]
  show "conversation_loop env tools L evs [] (pre @ ToolUse i n a # post) =
      (let msgs = messages L @ tool_turns (filter is_Text pre) i n a (result_content r);
           evs2 = evs @ [CallTool n a (messages L), Create (loop_request tools msgs)]
       in case create env (creates evs) (loop_request tools msgs) of
            Inl e \<Rightarrow> Some (Inl e, evs2)
          | Inr resp \<Rightarrow>
              conversation_loop env tools
                \<lparr>messages = msgs, final_text = final_text L @ fragments pre @ [Calling n a],
                 response = resp\<rparr>
                evs2 [] resp)" .
next
  assume "call_tool env (calls evs) n a = Inl e"
  with assms
  show "conversation_loop env tools L evs [] (pre @ ToolUse i n a # post) =
      Some (Inl e, evs @ [CallTool n a (messages L)])"
    by (simp add: loop_scan loop_ToolUse_raises)
qed

theorem tool_failure_outcomes_witness:
  "\<not> has_tool_use [Text ''reading''] \<and>
   call_tool tool_stub_error
     (calls [Create (loop_request scenario_tools (initial_messages ''list files''))])
     ''read_file'' [(''file_path'', ''/a.txt'')] =
     Inr \<lparr>result_content = ''Unable to read file.'', isError = True\<rparr> \<and>
   isError \<lparr>result_content = ''Unable to read file.'', isError = True\<rparr> \<and>
   conversation_loop tool_stub_error scenario_tools (entry_locals ''list files'' [])
     [Create (loop_request scenario_tools (initial_messages ''list files''))] []
     ([Text ''reading''] @ ToolUse ''t1'' ''read_file'' [(''file_path'', ''/a.txt'')] # []) =
   Some (Inr \<lparr>messages = initial_messages ''list files'' @
                 tool_turns [Text ''reading''] ''t1'' ''read_file'' [(''file_path'', ''/a.txt'')]
                   ''Unable to read file.'',
               final_text = [Fragment ''reading'',
                 Calling ''read_file'' [(''file_path'', ''/a.txt'')], Fragment ''done''],
               response = [Text ''done'']\<rparr>,
         [Create (loop_request scenario_tools (initial_messages ''list files'')),
          CallTool ''read_file'' [(''file_path'', ''/a.txt'')] (initial_messages ''list files''),
          Create (loop_request scenario_tools (initial_messages ''list files'' @
                 tool_turns [Text ''reading''] ''t1'' ''read_file'' [(''file_path'', ''/a.txt'')]
                   ''Unable to read file.''))]) \<and>
   call_tool tool_stub_fails
     (calls [Create (loop_request scenario_tools (initial_messages ''list files''))])
     ''read_file'' [(''file_path'', ''/a.txt'')] = Inl (Raised ''tool call timed out'') \<and>
   conversation_loop tool_stub_fails scenario_tools (entry_locals ''list files'' [])
     [Create (loop_request scenario_tools (initial_messages ''list files''))] []
     ([Text ''reading''] @ ToolUse ''t1'' ''read_file'' [(''file_path'', ''/a.txt'')] # []) =
   Some (Inl (Raised ''tool call timed out''),
         [Create (loop_request scenario_tools (initial_messages ''list files'')),
          CallTool ''read_file'' [(''file_path'', ''/a.txt'')] (initial_messages ''list files'')])"
proof -
  let ?evs = "[Create (loop_request scenario_tools (initial_messages ''list files''))]"
  let ?r = "\<lparr>result_content = ''Unable to read file.'', isError = True\<rparr>"
  have pre: "\<not> has_tool_use [Text ''reading'']"
    by (simp add: has_tool_use_def)
  have call1: "call_tool tool_stub_error (calls ?evs) ''read_file''
      [(''file_path'', ''/a.txt'')] = Inr ?r \<and> isError ?r"
    by (simp add: tool_stub_error_def stub_def)
  have call2: "call_tool tool_stub_fails (calls ?evs) ''read_file''
      [(''file_path'', ''/a.txt'')] = Inl (Raised ''tool call timed out'')"
    by (simp add: tool_stub_fails_def stub_def)
  have next_response: "\<And>req. create tool_stub_error (Suc 0) req = Inr [Text ''done'']"
    by (simp add: tool_stub_error_def scenario_gateway_def stub_def)
  from tool_failure_outcomes [OF pre, of tool_stub_error ?evs "''read_file''"
      "[(''file_path'', ''/a.txt'')]" ?r scenario_tools "entry_locals ''list files'' []" "''t1''"
      "[]"] call1
  have folded: "conversation_loop tool_stub_error scenario_tools (entry_locals ''list files'' [])
     ?evs [] ([Text ''reading''] @ ToolUse ''t1'' ''read_file'' [(''file_path'', ''/a.txt'')] # []) =
   Some (Inr \<lparr>messages = initial_messages ''list files'' @
                 tool_turns [Text ''reading''] ''t1'' ''read_file'' [(''file_path'', ''/a.txt'')]
                   ''Unable to read file.'',
               final_text = [Fragment ''reading'',
                 Calling ''read_file'' [(''file_path'', ''/a.txt'')], Fragment ''done''],
               response = [Text ''done'']\<rparr>,
         [Create (loop_request scenario_tools (initial_messages ''list files'')),
          CallTool ''read_file'' [(''file_path'', ''/a.txt'')] (initial_messages ''list files''),
          Create (loop_request scenario_tools (initial_messages ''list files'' @
                 tool_turns [Text ''reading''] ''t1'' ''read_file'' [(''file_path'', ''/a.txt'')]
                   ''Unable to read file.''))])"
    by (simp add: next_response Let_def loop_no_tool_use has_tool_use_def entry_locals_def
        fragments_def)
  from tool_failure_outcomes [OF pre, of tool_stub_fails ?evs "''read_file''"
      "[(''file_path'', ''/a.txt'')]" _ scenario_tools "entry_locals ''list files'' []" "''t1''"
      "[]" "Raised ''tool call timed out''"] call2
  have raised: "conversation_loop tool_stub_fails scenario_tools (entry_locals ''list files'' [])
     ?evs [] ([Text ''reading''] @ ToolUse ''t1'' ''read_file'' [(''file_path'', ''/a.txt'')] # []) =
   Some (Inl (Raised ''tool call timed out''),
         [Create (loop_request scenario_tools (initial_messages ''list files'')),
          CallTool ''read_file'' [(''file_path'', ''/a.txt'')] (initial_messages ''list files'')])"
    by (simp add: entry_locals_def)
  from pre call1 call2 folded raised show ?thesis by simp
qed

text \<open>
  Claim C4 has every failure of a tool call captured. With a registry whose \<^verbatim>\<open>call_tool\<close>
  raises, the run of the scenario ends with that exception after the tool call: no
  \<^verbatim>\<open>tool_result\<close> is recorded and the gateway is not called again.
\<close>

theorem tool_failure_counterexample:
  "process_query tool_stub_fails ''list files'' [] =
     Some (Inl (Raised ''tool call timed out''),
       [GetPrompt ''analysis_system_prompt'', ListTools,
        Create (loop_request scenario_tools (initial_messages ''list files'')),
        CallTool ''read_file'' [(''file_path'', ''/a.txt'')] (initial_messages ''list files'')])"
  by (simp add: process_query_def tool_stub_fails_def scenario_gateway_def stub_def Let_def
      to_dict_def loop_ToolUse_raises scenario_tools_def loop_request_def initial_messages_def)
subsection \<open>When the loop ends\<close>

lemma loop_diverges_aux:
  assumes "conversation_loop env tools L evs amc blocks = Some y"
  shows "(\<forall>k n a. \<exists>r. call_tool env k n a = Inr r) \<longrightarrow>
   (\<forall>k req. \<exists>resp. create env k req = Inr resp \<and> has_tool_use resp) \<longrightarrow>
   has_tool_use blocks \<longrightarrow> False"
proof (rule conversation_loop.raw_induct
    [where P = "\<lambda>env tools L evs amc blocks y.
      (\<forall>k n a. \<exists>r. call_tool env k n a = Inr r) \<longrightarrow>
      (\<forall>k req. \<exists>resp. create env k req = Inr resp \<and> has_tool_use resp) \<longrightarrow>
      has_tool_use blocks \<longrightarrow> False", OF _ assms], goal_cases)
  case (1 loop env tools L evs amc blocks y)
  show ?case
  proof (intro impI)
    assume reg: "\<forall>k n a. \<exists>r. call_tool env k n a = Inr r"
      and gw: "\<forall>k req. \<exists>resp. create env k req = Inr resp \<and> has_tool_use resp"
      and tu: "has_tool_use blocks"
    from tu obtain b rest where blocks: "blocks = b # rest"
      by (cases blocks) (auto simp: has_tool_use_def)
    show False
    proof (cases b)
      case (Text t)
      with blocks tu have "has_tool_use rest" by (simp add: has_tool_use_def)
      with 1 blocks Text reg gw show False by auto
    next
      case (ToolUse i n a)
      from reg obtain r where r: "call_tool env (calls evs) n a = Inr r" by blast
      let ?msgs = "messages L @
          [\<lparr>role = Assistant, content = Blocks (amc @ [b])\<rparr>,
           \<lparr>role = User, content = Blocks [ToolResult i (result_content r)]\<rparr>]"
      let ?req = "\<lparr>req_system = None, req_messages = ?msgs, req_tools = Some tools\<rparr>"
      from gw obtain resp where resp:
        "create env (creates (evs @ [CallTool n a (messages L)])) ?req = Inr resp"
        "has_tool_use resp" by blast
      with 1 blocks ToolUse r reg gw show False by (auto simp: Let_def)
    next
      case (ToolResult i c)
      with blocks tu have "has_tool_use rest" by (simp add: has_tool_use_def)
      with 1 blocks ToolResult reg gw show False by auto
    next
      case (OtherBlock ty)
      with blocks tu have "has_tool_use rest" by (simp add: has_tool_use_def)
      with 1 blocks OtherBlock reg gw show False by auto
    qed
  qed
qed

lemma loop_diverges:
  assumes "\<forall>k n a. \<exists>r. call_tool env k n a = Inr r"
    and "\<forall>k req. \<exists>resp. create env k req = Inr resp \<and> has_tool_use resp"
    and "has_tool_use blocks"
  shows "conversation_loop env tools L evs amc blocks = None"
proof (cases "conversation_loop env tools L evs amc blocks")
  case None
  then show ?thesis .
next
  case (Some y)
  from loop_diverges_aux [OF Some] assms show ?thesis by blast
qed

lemma loop_exit_tool_free_aux:
  assumes "conversation_loop env tools L evs amc blocks = Some y"
  shows "(\<exists>pre. response L = pre @ blocks \<and> \<not> has_tool_use pre) \<longrightarrow>
   (\<forall>L' evs'. y = (Inr L', evs') \<longrightarrow> \<not> has_tool_use (response L'))"
proof (rule conversation_loop.raw_induct
    [where P = "\<lambda>env tools L evs amc blocks y.
      (\<exists>pre. response L = pre @ blocks \<and> \<not> has_tool_use pre) \<longrightarrow>
      (\<forall>L' evs'. y = (Inr L', evs') \<longrightarrow> \<not> has_tool_use (response L'))", OF _ assms], goal_cases)
  case (1 loop env tools L evs amc blocks y)
  show ?case
  proof (intro impI allI)
    fix L' evs'
    assume pre: "\<exists>pre. response L = pre @ blocks \<and> \<not> has_tool_use pre"
      and y: "y = (Inr L', evs')"
    then obtain pre where pre: "response L = pre @ blocks" "\<not> has_tool_use pre" by blast
    show "\<not> has_tool_use (response L')"
    proof (cases blocks)
      case Nil
      with 1 pre y show ?thesis by simp
    next
      case (Cons b rest)
      have step: "\<not> is_ToolUse b \<Longrightarrow> response L = (pre @ [b]) @ rest \<and> \<not> has_tool_use (pre @ [b])"
        using pre Cons by (simp add: has_tool_use_def)
      show ?thesis
      proof (cases b)
        case (Text t)
        with step have "\<exists>p. response (L\<lparr>final_text := final_text L @ [Fragment t]\<rparr>) = p @ rest \<and> \<not> has_tool_use p"
          by (intro exI [of _ "pre @ [b]"]) simp
        with 1 Cons Text y show ?thesis by auto
      next
        case (ToolUse i n a)
        have "\<And>resp M F. \<exists>p. response \<lparr>messages = M, final_text = F, response = resp\<rparr> = p @ resp \<and> \<not> has_tool_use p"
          by (intro exI [of _ "[]"]) (simp add: has_tool_use_def)
        with 1 Cons ToolUse y show ?thesis
          by (auto simp: Let_def split: sum.splits)
      next
        case (ToolResult i c)
        with step have "\<exists>p. response L = p @ rest \<and> \<not> has_tool_use p"
          by (intro exI [of _ "pre @ [b]"]) simp
        with 1 Cons ToolResult y show ?thesis by auto
      next
        case (OtherBlock ty)
        with step have "\<exists>p. response L = p @ rest \<and> \<not> has_tool_use p"
          by (intro exI [of _ "pre @ [b]"]) simp
        with 1 Cons OtherBlock y show ?thesis by auto
      qed
    qed
  qed
qed

lemma loop_exit_tool_free:
  "conversation_loop env tools L evs [] (response L) = Some (Inr L', evs') \<Longrightarrow>
   \<not> has_tool_use (response L')"
  using loop_exit_tool_free_aux [of env tools L evs "[]" "response L" "(Inr L', evs')"]
  by (auto simp: has_tool_use_def)


lemma process_query_enters:
  assumes "get_prompt env ''analysis_system_prompt'' = Inr p"
    and "list_tools env (listings evs) = Inr ts"
    and "create env (creates evs) (loop_request (map to_dict ts) (initial_messages q)) = Inr resp"
  shows "process_query env q evs =
    (case conversation_loop env (map to_dict ts) (entry_locals q resp)
            (entry_events evs (map to_dict ts) q) [] resp of
       None \<Rightarrow> None
     | Some (Inl e, evs4) \<Rightarrow> Some (Inl e, evs4)
     | Some (Inr L, evs4) \<Rightarrow>
         Some (case create env (creates evs4) (summary_request q (messages L)) of
                 Inl e \<Rightarrow> Inl e | Inr rs \<Rightarrow> first_text rs,
               evs4 @ [Create (summary_request q (messages L))]))"
  using assms
  by (simp add: process_query_def loop_request_def initial_messages_def entry_events_def
      entry_locals_def summary_request_def Let_def
      split: option.split sum.split prod.split)

text \<open>
  A gateway that asks for a tool in its calls number \<open>0\<close> to \<open>N - 1\<close> and does not in its call
  number \<open>N\<close>, with a registry that answers every call: the loop, entered after \<open>c\<close> gateway
  calls on a response that asks for a tool, ends normally after gateway call number \<open>N\<close>.
\<close>

lemma loop_terminates:
  assumes reg: "\<forall>k n a. \<exists>r. call_tool env k n a = Inr r"
    and first: "\<forall>k<N. \<forall>req. \<exists>resp. create env k req = Inr resp \<and> has_tool_use resp"
    and later: "\<forall>req. \<exists>resp. create env N req = Inr resp \<and> \<not> has_tool_use resp"
  shows "creates evs = c \<Longrightarrow> c \<le> N \<Longrightarrow> has_tool_use blocks \<Longrightarrow>
    \<exists>L' evs'. conversation_loop env tools L evs [] blocks = Some (Inr L', evs') \<and>
      loop_creates evs' = loop_creates evs + (N + 1 - c) \<and>
      summary_creates evs' = summary_creates evs"
proof (induction "N - c" arbitrary: L evs blocks c)
  case 0
  then have c: "c = N" by simp
  from first_tool_use [OF \<open>has_tool_use blocks\<close>]
  obtain pre i n a post where blocks: "blocks = pre @ ToolUse i n a # post"
    and pre: "\<not> has_tool_use pre" by blast
  from reg obtain r where r: "call_tool env (calls evs) n a = Inr r" by blast
  let ?msgs = "messages L @ tool_turns (filter is_Text pre) i n a (result_content r)"
  let ?evs2 = "evs @ [CallTool n a (messages L), Create (loop_request tools ?msgs)]"
  let ?L2 = "\<lambda>resp. \<lparr>messages = ?msgs,
      final_text = final_text L @ fragments pre @ [Calling n a], response = resp\<rparr>"
  from later obtain resp where resp: "create env N (loop_request tools ?msgs) = Inr resp"
    "\<not> has_tool_use resp" by blast
  have step: "conversation_loop env tools L evs [] blocks =
      conversation_loop env tools (?L2 resp) ?evs2 [] resp"
    using loop_first_tool_use [OF pre r, of tools L i post] resp "0.prems"(1) c blocks
    by (simp add: Let_def)
  from loop_no_tool_use [OF resp(2), of env tools "?L2 resp" ?evs2 "[]"] step c
  show ?case by (simp add: loop_request_def)
next
  case (Suc d)
  then have c: "c < N" by simp
  from first_tool_use [OF \<open>has_tool_use blocks\<close>]
  obtain pre i n a post where blocks: "blocks = pre @ ToolUse i n a # post"
    and pre: "\<not> has_tool_use pre" by blast
  from reg obtain r where r: "call_tool env (calls evs) n a = Inr r" by blast
  let ?msgs = "messages L @ tool_turns (filter is_Text pre) i n a (result_content r)"
  let ?evs2 = "evs @ [CallTool n a (messages L), Create (loop_request tools ?msgs)]"
  let ?L2 = "\<lambda>resp. \<lparr>messages = ?msgs,
      final_text = final_text L @ fragments pre @ [Calling n a], response = resp\<rparr>"
  from first c obtain resp where resp: "create env c (loop_request tools ?msgs) = Inr resp"
    "has_tool_use resp" by blast
  have step: "conversation_loop env tools L evs [] blocks =
      conversation_loop env tools (?L2 resp) ?evs2 [] resp"
    using loop_first_tool_use [OF pre r, of tools L i post] resp Suc.prems(1) blocks
    by (simp add: Let_def)
  have "d = N - Suc c" using Suc.hyps(2) by simp
  moreover have "creates ?evs2 = Suc c" using Suc.prems(1) by simp
  moreover have "Suc c \<le> N" using c by simp
  ultimately obtain L' evs' where
    "conversation_loop env tools (?L2 resp) ?evs2 [] resp = Some (Inr L', evs')"
    "loop_creates evs' = loop_creates ?evs2 + (N + 1 - Suc c)"
    "summary_creates evs' = summary_creates ?evs2"
    using Suc.hyps(1) [of "Suc c" ?evs2 resp "?L2 resp"] resp(2) by blast
  with step c show ?case by (simp add: loop_request_def)
qed
text \<open>
  Claim C3. A response without a \<^verbatim>\<open>tool_use\<close> block ends the loop at once, with no further
  call, and the loop ends normally only on such a response. With a registry that answers
  every call and a gateway that asks for a tool in its first \<open>N\<close> responses and not in the
  next one, \<^verbatim>\<open>process_query\<close> returns after exactly \<open>N + 1\<close> gateway calls of the loop (and one
  summary call). With a gateway that asks for a tool in every response it never returns:
  nothing bounds the number of iterations.
\<close>

theorem loop_ends_on_tool_free_response:
  "(\<not> has_tool_use resp \<longrightarrow>
      conversation_loop env tools L evs [] resp =
        Some (Inr (L\<lparr>final_text := final_text L @ fragments resp\<rparr>), evs)) \<and>
   (conversation_loop env tools L evs [] (response L) = Some (Inr L', evs') \<longrightarrow>
      \<not> has_tool_use (response L')) \<and>
   ((\<forall>k n a. \<exists>r. call_tool env1 k n a = Inr r) \<and>
    (\<forall>k<N. \<forall>req. \<exists>resp. create env1 k req = Inr resp \<and> has_tool_use resp) \<and>
    (\<forall>req. \<exists>resp. create env1 N req = Inr resp \<and> \<not> has_tool_use resp) \<and>
    get_prompt env1 ''analysis_system_prompt'' = Inr p1 \<and> list_tools env1 0 = Inr ts1 \<longrightarrow>
      (\<exists>out evs1. process_query env1 q [] = Some (out, evs1) \<and>
         loop_creates evs1 = N + 1 \<and> summary_creates evs1 = 1)) \<and>
   ((\<forall>k n a. \<exists>r. call_tool env2 k n a = Inr r) \<and>
    (\<forall>k req. \<exists>resp. create env2 k req = Inr resp \<and> has_tool_use resp) \<and>
    get_prompt env2 ''analysis_system_prompt'' = Inr p2 \<and> list_tools env2 0 = Inr ts2 \<longrightarrow>
      process_query env2 q [] = None)"
proof (intro conjI impI)
  assume "\<not> has_tool_use resp"
  then show "conversation_loop env tools L evs [] resp =
        Some (Inr (L\<lparr>final_text := final_text L @ fragments resp\<rparr>), evs)"
    by (rule loop_no_tool_use)
next
  assume "conversation_loop env tools L evs [] (response L) = Some (Inr L', evs')"
  then show "\<not> has_tool_use (response L')"
    by (rule loop_exit_tool_free)
next
  assume h: "(\<forall>k n a. \<exists>r. call_tool env1 k n a = Inr r) \<and>
    (\<forall>k<N. \<forall>req. \<exists>resp. create env1 k req = Inr resp \<and> has_tool_use resp) \<and>
    (\<forall>req. \<exists>resp. create env1 N req = Inr resp \<and> \<not> has_tool_use resp) \<and>
    get_prompt env1 ''analysis_system_prompt'' = Inr p1 \<and> list_tools env1 0 = Inr ts1"
  then have reg: "\<forall>k n a. \<exists>r. call_tool env1 k n a = Inr r"
    and first: "\<forall>k<N. \<forall>req. \<exists>resp. create env1 k req = Inr resp \<and> has_tool_use resp"
    and later: "\<forall>req. \<exists>resp. create env1 N req = Inr resp \<and> \<not> has_tool_use resp"
    and p: "get_prompt env1 ''analysis_system_prompt'' = Inr p1"
    and ts: "list_tools env1 (listings []) = Inr ts1"
    by simp_all
  let ?tools = "map to_dict ts1"
  let ?req = "loop_request ?tools (initial_messages q)"
  let ?entry = "entry_events [] ?tools q"
  have entry: "loop_creates ?entry = 1" "summary_creates ?entry = 0" "creates ?entry = 1"
    by (simp_all add: entry_events_def loop_request_def)
  have "\<exists>L' evs4. conversation_loop env1 ?tools (entry_locals q resp0) ?entry [] resp0 =
          Some (Inr L', evs4) \<and> loop_creates evs4 = N + 1 \<and> summary_creates evs4 = 0"
    if resp0: "create env1 0 ?req = Inr resp0" for resp0
  proof (cases "N = 0")
    case True
    with later resp0 have "\<not> has_tool_use resp0" by (metis Inr_inject)
    from loop_no_tool_use [OF this, of env1 ?tools "entry_locals q resp0" ?entry "[]"] entry True
    show ?thesis by simp
  next
    case False
    with first resp0 have "has_tool_use resp0" by (metis Inr_inject gr0I)
    from loop_terminates [OF reg first later entry(3) _ this, of ?tools "entry_locals q resp0"]
      False entry
    show ?thesis by auto
  qed
  moreover obtain resp0 where resp0: "create env1 (creates []) ?req = Inr resp0"
    using first later by (cases "N = 0") (auto, blast)
  ultimately obtain L' evs4 where loop:
    "conversation_loop env1 ?tools (entry_locals q resp0) ?entry [] resp0 = Some (Inr L', evs4)"
    "loop_creates evs4 = N + 1" "summary_creates evs4 = 0"
    by auto
  from process_query_enters [OF p ts resp0] loop
  show "\<exists>out evs1. process_query env1 q [] = Some (out, evs1) \<and>
         loop_creates evs1 = N + 1 \<and> summary_creates evs1 = 1"
    by (simp add: summary_request_def)
next
  assume h: "(\<forall>k n a. \<exists>r. call_tool env2 k n a = Inr r) \<and>
    (\<forall>k req. \<exists>resp. create env2 k req = Inr resp \<and> has_tool_use resp) \<and>
    get_prompt env2 ''analysis_system_prompt'' = Inr p2 \<and> list_tools env2 0 = Inr ts2"
  then have reg: "\<forall>k n a. \<exists>r. call_tool env2 k n a = Inr r"
    and gw: "\<forall>k req. \<exists>resp. create env2 k req = Inr resp \<and> has_tool_use resp"
    and p: "get_prompt env2 ''analysis_system_prompt'' = Inr p2"
    and ts: "list_tools env2 (listings []) = Inr ts2"
    by simp_all
  from gw obtain resp0 where resp0:
    "create env2 (creates []) (loop_request (map to_dict ts2) (initial_messages q)) = Inr resp0"
    "has_tool_use resp0" by blast
  from process_query_enters [OF p ts resp0(1)] loop_diverges [OF reg gw resp0(2)]
  show "process_query env2 q [] = None" by simp
qed
theorem loop_ends_on_tool_free_response_witness:
  "\<not> has_tool_use [Text ''done''] \<and>
   conversation_loop (scenario ''t1'' [Text ''read'']) scenario_tools
     (entry_locals ''list files'' [Text ''done'']) [] [] [Text ''done''] =
     Some (Inr ((entry_locals ''list files'' [Text ''done''])\<lparr>final_text := [Fragment ''done'']\<rparr>),
           []) \<and>
   \<not> has_tool_use
     (response ((entry_locals ''list files'' [Text ''done''])\<lparr>final_text := [Fragment ''done'']\<rparr>)) \<and>
   (\<forall>k n a. \<exists>r. call_tool (scenario ''t1'' [Text ''read'']) k n a = Inr r) \<and>
   (\<forall>req. \<exists>resp. create (scenario ''t1'' [Text ''read'']) 0 req = Inr resp \<and> has_tool_use resp) \<and>
   (\<forall>req. \<exists>resp. create (scenario ''t1'' [Text ''read'']) 1 req = Inr resp \<and>
      \<not> has_tool_use resp) \<and>
   (\<exists>out evs1. process_query (scenario ''t1'' [Text ''read'']) ''list files'' [] =
      Some (out, evs1) \<and> loop_creates evs1 = 1 + 1 \<and> summary_creates evs1 = 1) \<and>
   (\<forall>k req. \<exists>resp. create always_tool_use k req = Inr resp \<and> has_tool_use resp) \<and>
   process_query always_tool_use ''list files'' [] = None"
proof -
  let ?env1 = "scenario ''t1'' [Text ''read'']"
  let ?L = "entry_locals ''list files'' [Text ''done'']"
  let ?L' = "?L\<lparr>final_text := [Fragment ''done'']\<rparr>"
  have free: "\<not> has_tool_use [Text ''done'']" by (simp add: has_tool_use_def)
  have exit: "conversation_loop ?env1 scenario_tools ?L [] [] (response ?L) = Some (Inr ?L', [])"
    by (simp add: entry_locals_def loop_Text loop_Nil)
  have reg1: "\<forall>k n a. \<exists>r. call_tool ?env1 k n a = Inr r"
    by (simp add: scenario_def stub_def)
  have first: "\<forall>k<1. \<forall>req. \<exists>resp. create ?env1 k req = Inr resp \<and> has_tool_use resp"
    by (simp add: scenario_def scenario_gateway_def stub_def has_tool_use_def)
  have later: "\<forall>req. \<exists>resp. create ?env1 1 req = Inr resp \<and> \<not> has_tool_use resp"
    by (simp add: scenario_def scenario_gateway_def stub_def has_tool_use_def)
  have p1: "get_prompt ?env1 ''analysis_system_prompt'' = Inr [''You are a seasoned Salesforce expert'']"
    by (simp add: scenario_def stub_def)
  have ts1: "list_tools ?env1 0 = Inr [\<lparr>name = ''read_file'',
      description = ''Read a file from the specified path.'', inputSchema = ''file_path''\<rparr>]"
    by (simp add: scenario_def stub_def)
  have reg2: "\<forall>k n a. \<exists>r. call_tool always_tool_use k n a = Inr r"
    by (simp add: always_tool_use_def stub_def)
  have gw2: "\<forall>k req. \<exists>resp. create always_tool_use k req = Inr resp \<and> has_tool_use resp"
    by (simp add: always_tool_use_def stub_def has_tool_use_def)
  have p2: "get_prompt always_tool_use ''analysis_system_prompt'' =
      Inr [''You are a seasoned Salesforce expert'']"
    by (simp add: always_tool_use_def stub_def)
  have ts2: "list_tools always_tool_use 0 = Inr [\<lparr>name = ''read_file'',
      description = ''Read a file from the specified path.'', inputSchema = ''file_path''\<rparr>]"
    by (simp add: always_tool_use_def stub_def)
  note inst = loop_ends_on_tool_free_response
    [of "[Text ''done'']" ?env1 scenario_tools ?L "[]" ?L' "[]" ?env1 1 _ _ "''list files''"
        always_tool_use]
  from inst free have a: "conversation_loop ?env1 scenario_tools ?L [] [] [Text ''done''] =
      Some (Inr (?L\<lparr>final_text := final_text ?L @ fragments [Text ''done'']\<rparr>), [])"
    by blast
  from inst exit have b: "\<not> has_tool_use (response ?L')" by blast
  from inst reg1 first later p1 ts1
  have c: "\<exists>out evs1. process_query ?env1 ''list files'' [] = Some (out, evs1) \<and>
      loop_creates evs1 = 1 + 1 \<and> summary_creates evs1 = 1"
    by blast
  from inst reg2 gw2 p2 ts2
  have d: "process_query always_tool_use ''list files'' [] = None"
    by blast
  have a': "conversation_loop ?env1 scenario_tools ?L [] [] [Text ''done''] = Some (Inr ?L', [])"
    using a by (simp add: entry_locals_def fragments_def)
  have first0: "\<forall>req. \<exists>resp. create ?env1 0 req = Inr resp \<and> has_tool_use resp"
    using first by simp
  from free a' b reg1 first0 later c gw2 d show ?thesis by blast
qed

end
